theory Spec2Isabelle
  imports Main "HOL-Library.AList" "HOL-Library.Multiset"
begin

section \<open>Values shared by the services\<close>

text \<open>
  The services read loosely typed JSON rows. A field that the code guards with
  \<open>?.\<close>, \<open>||\<close>, \<open>!\<close> or a truthiness test may be absent (\<open>undefined\<close>) or
  \<open>null\<close>; such a field has type \<open>'a js\<close>.
\<close>

datatype 'a js = Undefined | Null | Val 'a

text \<open>
  A rejected promise or a thrown exception is an \<open>error\<close> value: \<open>RequestFailed\<close> is what
  the HTTP client throws, \<open>TypeError\<close> is a property read on \<open>undefined\<close>/\<open>null\<close>,
  \<open>NotFound\<close> is the error \<open>getPluginAssemblyComplete\<close> throws itself, \<open>RangeError\<close> is
  what \<open>toISOString\<close> throws on an invalid date.
\<close>

datatype error = RequestFailed string | TypeError | NotFound string | RangeError

section \<open>DependencyService\<close>

text \<open>
  The response of \<open>RetrieveDependenciesForDelete\<close> as \<open>checkDeleteEligibility\<close> reads it:
  \<open>{ EntityCollection?: { Entities?: unknown[] } }\<close>. The elements are never inspected,
  so their type is a parameter.
\<close>

record 'd entity_collection =
  Entities :: "'d list js"

record 'd dependencies_result =
  EntityCollection :: "'d entity_collection js"

text \<open>
  \<open>client.post(url, body)\<close>: the body is \<open>{ObjectId, ComponentType}\<close>. The call may throw;
  what it returns is \<open>unknown\<close>, possibly \<open>undefined\<close> or \<open>null\<close>.
\<close>

type_synonym 'd post_client =
  "string \<Rightarrow> string \<times> int \<Rightarrow> error + 'd dependencies_result js"

definition checkDependencies ::
  "'d post_client \<Rightarrow> string \<Rightarrow> int \<Rightarrow> error + 'd dependencies_result js" where
  "checkDependencies client componentId componentType =
     client ''api/data/v9.2/RetrieveDependenciesForDelete'' (componentId, componentType)"

record 'd delete_eligibility =
  canDelete :: bool
  dependencies :: "'d list"

text \<open>\<open>result.EntityCollection?.Entities\<close>; reading a property of \<open>undefined\<close> or \<open>null\<close> throws.\<close>

definition read_Entities :: "'d dependencies_result js \<Rightarrow> error + 'd list js" where
  "read_Entities result =
     (case result of
        Undefined \<Rightarrow> Inl TypeError
      | Null \<Rightarrow> Inl TypeError
      | Val r \<Rightarrow>
          (case EntityCollection r of
             Undefined \<Rightarrow> Inr Undefined
           | Null \<Rightarrow> Inr Undefined
           | Val ec \<Rightarrow> Inr (Entities ec)))"

text \<open>\<open>x || []\<close>: an array is truthy even when empty, \<open>undefined\<close> and \<open>null\<close> are falsy.\<close>

definition or_empty :: "'d list js \<Rightarrow> 'd list" where
  "or_empty x = (case x of Undefined \<Rightarrow> [] | Null \<Rightarrow> [] | Val xs \<Rightarrow> xs)"

text \<open>The body of the \<open>try\<close> block.\<close>

definition checkDeleteEligibility_try ::
  "'d post_client \<Rightarrow> string \<Rightarrow> int \<Rightarrow> error + 'd delete_eligibility" where
  "checkDeleteEligibility_try client componentId componentType =
     (case checkDependencies client componentId componentType of
        Inl e \<Rightarrow> Inl e
      | Inr result \<Rightarrow>
          (case read_Entities result of
             Inl e \<Rightarrow> Inl e
           | Inr es \<Rightarrow>
               (let deps = or_empty es
                in Inr \<lparr>canDelete = (length deps = 0), dependencies = deps\<rparr>)))"

text \<open>The \<open>try\<close> with its bare \<open>catch\<close>, which swallows whatever was thrown.\<close>

definition checkDeleteEligibility ::
  "'d post_client \<Rightarrow> string \<Rightarrow> int \<Rightarrow> error + 'd delete_eligibility" where
  "checkDeleteEligibility client componentId componentType =
     (case checkDeleteEligibility_try client componentId componentType of
        Inl _ \<Rightarrow> Inr \<lparr>canDelete = False, dependencies = []\<rparr>
      | Inr r \<Rightarrow> Inr r)"


section \<open>PluginService\<close>

subsection \<open>Rows returned by the remote tables\<close>

text \<open>
  Only the fields the service reads are modelled; the other selected columns are passed
  through untouched. The expanded navigation properties \<open>sdkmessageid\<close>, \<open>plugintypeid\<close>,
  \<open>impersonatinguserid\<close> and \<open>pluginassemblyid\<close> are objects with optional fields (the
  source's \<open>name\<close>, \<open>typename\<close>, \<open>fullname\<close>, \<open>name\<close>/\<open>version\<close>), or are missing.
  The column \<open>_plugintypeid_value\<close> is \<open>plugintypeid_value\<close> here, and
  \<open>_sdkmessageprocessingstepid_value\<close> is \<open>sdkmessageprocessingstepid_value\<close>.
\<close>

record sdkmessage_ref =
  sdkmessage_name :: "string js"

record plugintype_ref =
  typename :: "string js"

record systemuser_ref =
  fullname :: "string js"

record pluginassembly_ref =
  assembly_name :: "string js"
  assembly_version :: "string js"

record step_row =
  sdkmessageprocessingstepid :: string
  name :: string
  stage :: int
  mode :: int
  rank :: int
  statuscode :: int
  filteringattributes :: "string js"
  supporteddeployment :: int
  plugintypeid_value :: "string js"
  sdkmessageid :: "sdkmessage_ref js"
  plugintypeid :: "plugintype_ref js"
  impersonatinguserid :: "systemuser_ref js"

record image_row =
  sdkmessageprocessingstepimageid :: string
  imagetype :: int
  sdkmessageprocessingstepid_value :: string

record pluginassembly_row =
  pluginassemblyid :: string

record plugintype_row =
  plugintypeid :: string

record plugintype_expanded =
  pluginassemblyid :: "pluginassembly_ref js"

record tracelog_row =
  mode :: int
  operationtype :: int
  exceptiondetails :: "string js"

subsection \<open>The HTTP client and the requests it is asked\<close>

text \<open>
  Every \<open>client.get(url)\<close> of the service is one constructor of \<open>request\<close>, holding
  what the service interpolates into the URL. The client answers each kind of request
  with rows of the matching shape, or throws.
\<close>

datatype filter_clause =
    Createdon_gt int
  | Primaryentity_eq string
  | Messagename_eq string
  | Correlationid_eq string
  | Stepid_eq string
  | Exceptiondetails_ne_null

datatype request =
    Get_pluginassemblies string
  | Get_plugintypes string
  | Get_steps_of_plugintypes "string list" bool
  | Get_steps_of_entity string "string option" bool
  | Get_plugintype string
  | Get_stepimages "string list"
  | Get_plugintracelogs "filter_clause list" int

record client =
  get_pluginassemblies :: "string \<Rightarrow> error + pluginassembly_row list js"
  get_plugintypes :: "string \<Rightarrow> error + plugintype_row list"
  get_steps_of_plugintypes :: "string list \<Rightarrow> bool \<Rightarrow> error + step_row list"
  get_steps_of_entity :: "string \<Rightarrow> string option \<Rightarrow> bool \<Rightarrow> error + step_row list"
  get_plugintype :: "string \<Rightarrow> error + plugintype_expanded"
  get_stepimages :: "string list \<Rightarrow> error + image_row list"
  get_plugintracelogs :: "filter_clause list \<Rightarrow> int \<Rightarrow> error + tracelog_row list"

text \<open>
  An asynchronous operation yields its outcome (a value, or the error it rejects with)
  and the requests it has issued, in order.
\<close>

type_synonym 'a io = "(error + 'a) \<times> request list"

definition returns :: "'a \<Rightarrow> 'a io" where
  "returns x = (Inr x, [])"

definition throws :: "error \<Rightarrow> 'a io" where
  "throws e = (Inl e, [])"

definition request :: "request \<Rightarrow> error + 'a \<Rightarrow> 'a io" where
  "request q outcome = (outcome, [q])"

definition await :: "'a io \<Rightarrow> ('a \<Rightarrow> 'b io) \<Rightarrow> 'b io" where
  "await m f =
     (case m of
        (Inl e, qs) \<Rightarrow> (Inl e, qs)
      | (Inr x, qs) \<Rightarrow> (case f x of (r, qs') \<Rightarrow> (r, qs @ qs')))"

fun is_image_request :: "request \<Rightarrow> bool" where
  "is_image_request (Get_stepimages _) = True"
| "is_image_request _ = False"

subsection \<open>JavaScript primitives used by the service\<close>

text \<open>Truthiness of a string that may be missing: only a non-empty string is truthy.\<close>

fun truthy :: "string js \<Rightarrow> bool" where
  "truthy (Val s) = (s \<noteq> [])"
| "truthy _ = False"

text \<open>\<open>s.split(c)\<close> for a one-character separator: the empty string gives one empty piece.\<close>

fun split :: "char \<Rightarrow> string \<Rightarrow> string list" where
  "split c [] = [[]]"
| "split c (x # xs) =
     (if x = c then [] # split c xs
      else (case split c xs of [] \<Rightarrow> [[x]] | w # ws \<Rightarrow> (x # w) # ws))"

text \<open>\<open>[...new Set(xs)]\<close>: the distinct elements in order of first occurrence.\<close>

definition set_add :: "'a \<Rightarrow> 'a list \<Rightarrow> 'a list" where
  "set_add x acc = (if x \<in> set acc then acc else acc @ [x])"

definition new_Set :: "'a list \<Rightarrow> 'a list" where
  "new_Set xs = fold set_add xs []"

text \<open>A template literal prints a non-negative integer in decimal.\<close>

definition digit_char :: "nat \<Rightarrow> char" where
  "digit_char d = ''0123456789'' ! d"

function string_of_nat :: "nat \<Rightarrow> string" where
  "string_of_nat n =
     (if n < 10 then [digit_char n] else string_of_nat (n div 10) @ [digit_char (n mod 10)])"
  by pat_completeness auto
termination
  by (relation "measure (\<lambda>n. n)") auto

declare string_of_nat.simps [simp del]

text \<open>\<open>obj?.name\<close> and its siblings on the expanded navigation properties.\<close>

definition message_name :: "sdkmessage_ref js \<Rightarrow> string js" where
  "message_name sdkmsg = (case sdkmsg of Val m \<Rightarrow> sdkmessage_name m | _ \<Rightarrow> Undefined)"

definition type_name :: "plugintype_ref js \<Rightarrow> string js" where
  "type_name pt = (case pt of Val t \<Rightarrow> typename t | _ \<Rightarrow> Undefined)"

definition full_name :: "systemuser_ref js \<Rightarrow> string js" where
  "full_name u = (case u of Val v \<Rightarrow> fullname v | _ \<Rightarrow> Undefined)"


subsection \<open>getPluginAssemblyComplete\<close>

record step_with_images = step_row +
  images :: "image_row list"

record validation =
  hasDisabledSteps :: bool
  hasAsyncSteps :: bool
  hasSyncSteps :: bool
  stepsWithoutFilteringAttributes :: "string list"
  stepsWithoutImages :: "string list"
  potentialIssues :: "string list"

record assembly_complete =
  assembly :: pluginassembly_row
  pluginTypes :: "plugintype_row list"
  steps :: "step_with_images list"
  validation :: validation

text \<open>The images of one step: \<open>allImages.filter(img => img._..._value === step.id)\<close>.\<close>

definition images_of :: "image_row list \<Rightarrow> string \<Rightarrow> image_row list" where
  "images_of allImages stepId =
     filter (\<lambda>img. sdkmessageprocessingstepid_value img = stepId) allImages"

text \<open>\<open>{...step, images: ...}\<close>\<close>

definition attach_images :: "image_row list \<Rightarrow> step_row \<Rightarrow> step_with_images" where
  "attach_images allImages step =
     step_row.extend step
       (step_with_images.fields (images_of allImages (sdkmessageprocessingstepid step)))"

definition is_update_or_delete :: "string js \<Rightarrow> bool" where
  "is_update_or_delete msgName = (msgName = Val ''Update'' \<or> msgName = Val ''Delete'')"

definition lacks_filtering_attributes :: "step_with_images \<Rightarrow> bool" where
  "lacks_filtering_attributes s =
     (let msgName = message_name (sdkmessageid s)
      in is_update_or_delete msgName \<and> \<not> truthy (filteringattributes s))"

definition lacks_images :: "step_with_images \<Rightarrow> bool" where
  "lacks_images s =
     (let msgName = message_name (sdkmessageid s)
      in length (images s) = 0 \<and> is_update_or_delete msgName)"

text \<open>The \<open>validation\<close> object as first built, with \<open>potentialIssues\<close> still empty.\<close>

definition initial_validation :: "step_row list \<Rightarrow> step_with_images list \<Rightarrow> validation" where
  "initial_validation allSteps stepsWithImages =
     \<lparr>hasDisabledSteps = list_ex (\<lambda>s. step_row.statuscode s \<noteq> 1) allSteps,
      hasAsyncSteps = list_ex (\<lambda>s. step_row.mode s = 1) allSteps,
      hasSyncSteps = list_ex (\<lambda>s. step_row.mode s = 0) allSteps,
      stepsWithoutFilteringAttributes =
        map step_row.name (filter lacks_filtering_attributes stepsWithImages),
      stepsWithoutImages = map step_row.name (filter lacks_images stepsWithImages),
      potentialIssues = []\<rparr>"

text \<open>The two conditional \<open>push\<close>es.\<close>

definition push_filtering_issue :: "validation \<Rightarrow> validation" where
  "push_filtering_issue v =
     (if length (stepsWithoutFilteringAttributes v) > 0
      then v\<lparr>potentialIssues := potentialIssues v @
             [string_of_nat (length (stepsWithoutFilteringAttributes v)) @
              '' Update/Delete steps without filtering attributes (performance concern)'']\<rparr>
      else v)"

definition push_images_issue :: "validation \<Rightarrow> validation" where
  "push_images_issue v =
     (if length (stepsWithoutImages v) > 0
      then v\<lparr>potentialIssues := potentialIssues v @
             [string_of_nat (length (stepsWithoutImages v)) @
              '' Update/Delete steps without images (may need entity data)'']\<rparr>
      else v)"

definition validate :: "step_row list \<Rightarrow> step_with_images list \<Rightarrow> validation" where
  "validate allSteps stepsWithImages =
     push_images_issue (push_filtering_issue (initial_validation allSteps stepsWithImages))"

text \<open>
  The image fetch shared by both operations: one request for all step ids, none when
  there is no step.
\<close>

definition fetch_images :: "client \<Rightarrow> string list \<Rightarrow> image_row list io" where
  "fetch_images client stepIds =
     (if length stepIds > 0
      then request (Get_stepimages stepIds) (get_stepimages client stepIds)
      else returns [])"

definition fetch_steps_of_plugintypes ::
  "client \<Rightarrow> string list \<Rightarrow> bool \<Rightarrow> step_row list io" where
  "fetch_steps_of_plugintypes client pluginTypeIds includeDisabled =
     (if length pluginTypeIds > 0
      then request (Get_steps_of_plugintypes pluginTypeIds includeDisabled)
             (get_steps_of_plugintypes client pluginTypeIds includeDisabled)
      else returns [])"

definition getPluginAssemblyComplete ::
  "client \<Rightarrow> string \<Rightarrow> bool \<Rightarrow> assembly_complete io" where
  "getPluginAssemblyComplete client assemblyName includeDisabled =
     await (request (Get_pluginassemblies assemblyName)
              (get_pluginassemblies client assemblyName))
       (\<lambda>assemblies.
          case assemblies of
            Val (first # _) \<Rightarrow>
              (let assembly = first;
                   assemblyId = pluginassembly_row.pluginassemblyid assembly
               in await (request (Get_plugintypes assemblyId)
                           (get_plugintypes client assemblyId))
                    (\<lambda>pluginTypes.
                       let pluginTypeIds = map plugintypeid pluginTypes
                       in await (fetch_steps_of_plugintypes client pluginTypeIds includeDisabled)
                            (\<lambda>allSteps.
                               let stepIds = map sdkmessageprocessingstepid allSteps
                               in await (fetch_images client stepIds)
                                    (\<lambda>allImages.
                                       let stepsWithImages = map (attach_images allImages) allSteps
                                       in returns
                                            \<lparr>assembly = assembly,
                                             pluginTypes = pluginTypes,
                                             steps = stepsWithImages,
                                             validation = validate allSteps stepsWithImages\<rparr>))))
          | _ \<Rightarrow>
              throws (NotFound (''Plugin assembly '' @ [CHR 0x27] @ assemblyName @ [CHR 0x27] @ '' not found'')))"


subsection \<open>getEntityPluginPipeline\<close>

record formatted_step =
  sdkmessageprocessingstepid :: string
  name :: string
  stage :: int
  stageName :: string
  mode :: int
  modeName :: string
  rank :: int
  message :: "string js"
  pluginType :: "string js"
  assemblyName :: "string js"
  assemblyVersion :: "string js"
  filteringAttributes :: "string list"
  statuscode :: int
  enabled :: bool
  deployment :: string
  impersonatingUser :: "string js"
  hasPreImage :: bool
  hasPostImage :: bool
  images :: "image_row list"

record stage_buckets =
  preValidation :: "formatted_step list"
  preOperation :: "formatted_step list"
  postOperation :: "formatted_step list"

record message_group =
  messageName :: "string js"
  stages :: stage_buckets

record entity_pipeline =
  entity :: string
  messages :: "message_group list"
  steps :: "formatted_step list"
  executionOrder :: "string list"

text \<open>
  A JavaScript \<open>Map\<close> keeps its keys in insertion order and \<open>set\<close> on a present key
  replaces the value in place: an association list with \<open>AList.update\<close> for \<open>set\<close> and
  \<open>map_of\<close> for \<open>get\<close>. \<open>undefined\<close>, \<open>null\<close> and every string are distinct keys.
\<close>

type_synonym ('k, 'v) js_map = "('k \<times> 'v) list"

definition map_has :: "('k, 'v) js_map \<Rightarrow> 'k \<Rightarrow> bool" where
  "map_has m k = (map_of m k \<noteq> None)"

definition map_values :: "('k, 'v) js_map \<Rightarrow> 'v list" where
  "map_values m = map snd m"

text \<open>\<open>assemblyMap.get(step._plugintypeid_value)\<close>, then \<open>assembly?.name\<close>, \<open>assembly?.version\<close>.\<close>

definition assembly_of ::
  "(string, pluginassembly_ref js) js_map \<Rightarrow> string js \<Rightarrow> pluginassembly_ref js" where
  "assembly_of assemblyMap typeId =
     (case typeId of
        Val k \<Rightarrow> (case map_of assemblyMap k of Some a \<Rightarrow> a | None \<Rightarrow> Undefined)
      | _ \<Rightarrow> Undefined)"

definition name_of_assembly :: "pluginassembly_ref js \<Rightarrow> string js" where
  "name_of_assembly a = (case a of Val r \<Rightarrow> assembly_name r | _ \<Rightarrow> Undefined)"

definition version_of_assembly :: "pluginassembly_ref js \<Rightarrow> string js" where
  "version_of_assembly a = (case a of Val r \<Rightarrow> assembly_version r | _ \<Rightarrow> Undefined)"

text \<open>\<open>step.filteringattributes ? step.filteringattributes.split(',') : []\<close>\<close>

definition filtering_attribute_list :: "string js \<Rightarrow> string list" where
  "filtering_attribute_list fa =
     (case fa of Val s \<Rightarrow> (if truthy fa then split (CHR '','') s else []) | _ \<Rightarrow> [])"

definition format_step ::
  "(string, pluginassembly_ref js) js_map \<Rightarrow> image_row list \<Rightarrow> step_row \<Rightarrow> formatted_step"
  where
  "format_step assemblyMap allImages step =
     (let assembly = assembly_of assemblyMap (plugintypeid_value step);
          images = images_of allImages (step_row.sdkmessageprocessingstepid step)
      in \<lparr>sdkmessageprocessingstepid = step_row.sdkmessageprocessingstepid step,
          name = step_row.name step,
          stage = step_row.stage step,
          stageName =
            (if step_row.stage step = 10 then ''PreValidation''
             else if step_row.stage step = 20 then ''PreOperation''
             else ''PostOperation''),
          mode = step_row.mode step,
          modeName = (if step_row.mode step = 0 then ''Synchronous'' else ''Asynchronous''),
          rank = step_row.rank step,
          message = message_name (sdkmessageid step),
          pluginType = type_name (step_row.plugintypeid step),
          assemblyName = name_of_assembly assembly,
          assemblyVersion = version_of_assembly assembly,
          filteringAttributes = filtering_attribute_list (filteringattributes step),
          statuscode = step_row.statuscode step,
          enabled = (step_row.statuscode step = 1),
          deployment =
            (if supporteddeployment step = 0 then ''Server''
             else if supporteddeployment step = 1 then ''Offline''
             else ''Both''),
          impersonatingUser = full_name (impersonatinguserid step),
          hasPreImage = list_ex (\<lambda>img. imagetype img = 0 \<or> imagetype img = 2) images,
          hasPostImage = list_ex (\<lambda>img. imagetype img = 1 \<or> imagetype img = 2) images,
          images = images\<rparr>)"

text \<open>
  The body of the \<open>forEach\<close> callback. \<open>messageGroups.get(key)!\<close> is read without a check:
  were the key missing, \<open>msg.stages\<close> would throw.
\<close>

definition empty_group :: "string js \<Rightarrow> message_group" where
  "empty_group key =
     \<lparr>messageName = key,
      stages = \<lparr>preValidation = [], preOperation = [], postOperation = []\<rparr>\<rparr>"

definition push_step :: "formatted_step \<Rightarrow> message_group \<Rightarrow> message_group" where
  "push_step step msg =
     (if stage step = 10
      then msg\<lparr>stages := (stages msg)\<lparr>preValidation := preValidation (stages msg) @ [step]\<rparr>\<rparr>
      else if stage step = 20
      then msg\<lparr>stages := (stages msg)\<lparr>preOperation := preOperation (stages msg) @ [step]\<rparr>\<rparr>
      else if stage step = 40
      then msg\<lparr>stages := (stages msg)\<lparr>postOperation := postOperation (stages msg) @ [step]\<rparr>\<rparr>
      else msg)"

definition group_step ::
  "formatted_step \<Rightarrow> (string js, message_group) js_map \<Rightarrow>
   error + (string js, message_group) js_map" where
  "group_step step messageGroups =
     (let messageGroups' =
            (if \<not> map_has messageGroups (message step)
             then AList.update (message step) (empty_group (message step)) messageGroups
             else messageGroups)
      in case map_of messageGroups' (message step) of
           None \<Rightarrow> Inl TypeError
         | Some msg \<Rightarrow> Inr (AList.update (message step) (push_step step msg) messageGroups'))"

fun group_steps ::
  "formatted_step list \<Rightarrow> (string js, message_group) js_map \<Rightarrow>
   error + (string js, message_group) js_map" where
  "group_steps [] messageGroups = Inr messageGroups"
| "group_steps (step # rest) messageGroups =
     (case group_step step messageGroups of
        Inl e \<Rightarrow> Inl e
      | Inr messageGroups' \<Rightarrow> group_steps rest messageGroups')"

text \<open>The \<open>for\<close> loop that resolves the assembly of each distinct plugin type, one request each.\<close>

fun fetch_assemblies ::
  "client \<Rightarrow> string list \<Rightarrow> (string, pluginassembly_ref js) js_map \<Rightarrow>
   (string, pluginassembly_ref js) js_map io" where
  "fetch_assemblies client [] assemblyMap = returns assemblyMap"
| "fetch_assemblies client (typeId # rest) assemblyMap =
     await (request (Get_plugintype typeId) (get_plugintype client typeId))
       (\<lambda>pluginType.
          fetch_assemblies client rest
            (AList.update typeId (plugintype_expanded.pluginassemblyid pluginType) assemblyMap))"

text \<open>\<open>.map(s => s._plugintypeid_value).filter(id => id != null)\<close>\<close>

definition non_null_ids :: "string js list \<Rightarrow> string list" where
  "non_null_ids ids = concat (map (\<lambda>v. case v of Val k \<Rightarrow> [k] | _ \<Rightarrow> []) ids)"

text \<open>The message filter is interpolated only when it is a non-empty string.\<close>

definition message_clause :: "string js \<Rightarrow> string option" where
  "message_clause messageFilter =
     (case messageFilter of Val m \<Rightarrow> (if truthy messageFilter then Some m else None) | _ \<Rightarrow> None)"

definition getEntityPluginPipeline ::
  "client \<Rightarrow> string \<Rightarrow> string js \<Rightarrow> bool \<Rightarrow> entity_pipeline io" where
  "getEntityPluginPipeline client entityName messageFilter includeDisabled =
     await (request (Get_steps_of_entity entityName (message_clause messageFilter) includeDisabled)
              (get_steps_of_entity client entityName (message_clause messageFilter) includeDisabled))
       (\<lambda>rows.
          let pluginTypeIds = new_Set (non_null_ids (map plugintypeid_value rows))
          in await (fetch_assemblies client pluginTypeIds [])
               (\<lambda>assemblyMap.
                  let stepIds = map step_row.sdkmessageprocessingstepid rows
                  in await (fetch_images client stepIds)
                       (\<lambda>allImages.
                          let formattedSteps = map (format_step assemblyMap allImages) rows
                          in case group_steps formattedSteps [] of
                               Inl e \<Rightarrow> throws e
                             | Inr messageGroups \<Rightarrow>
                                 returns
                                   \<lparr>entity = entityName,
                                    messages = map_values messageGroups,
                                    steps = formattedSteps,
                                    executionOrder = map name formattedSteps\<rparr>)))"


subsection \<open>getPluginTraceLogs\<close>

text \<open>
  A string is its list of code units; \<open>char\<close> covers the code units below 256. Of those,
  \<open>String.prototype.trim\<close> strips TAB, LF, VT, FF, CR, SPACE and NO-BREAK SPACE.
\<close>

definition is_white_space :: "char \<Rightarrow> bool" where
  "is_white_space c =
     (c = CHR 0x09 \<or> c = CHR 0x0A \<or> c = CHR 0x0B \<or> c = CHR 0x0C \<or> c = CHR 0x0D \<or>
      c = CHR 0x20 \<or> c = CHR 0xA0)"

definition trim :: "string \<Rightarrow> string" where
  "trim s = rev (dropWhile is_white_space (rev (dropWhile is_white_space s)))"

text \<open>\<open>s.indexOf(c)\<close>: the index of the first occurrence, or \<open>-1\<close>.\<close>

fun indexOf :: "string \<Rightarrow> char \<Rightarrow> int" where
  "indexOf [] c = -1"
| "indexOf (x # xs) c =
     (if x = c then 0 else (let i = indexOf xs c in if i < 0 then -1 else i + 1))"

text \<open>\<open>s.substring(i)\<close> for \<open>i \<ge> 0\<close>: the rest of the string from index \<open>i\<close>.\<close>

definition substring :: "string \<Rightarrow> int \<Rightarrow> string" where
  "substring s i = drop (nat i) s"

text \<open>
  \<open>s.match(/^([^:]+):/)\<close>, returning the first capture group. The pattern is anchored at
  the start of the string and carries no flag; the negated class \<open>[^:]\<close> accepts every
  code unit but the colon, line terminators included. The greedy \<open>+\<close> takes the longest
  colon-free prefix, which must be non-empty and be followed by a colon; a shorter
  prefix would be followed by a non-colon, so backtracking finds nothing more.
\<close>

definition match_before_colon :: "string \<Rightarrow> string option" where
  "match_before_colon s =
     (let prefix = takeWhile (\<lambda>c. c \<noteq> CHR '':'') s;
          rest = dropWhile (\<lambda>c. c \<noteq> CHR '':'') s
      in if prefix \<noteq> [] \<and> rest \<noteq> [] then Some prefix else None)"

definition extractExceptionType :: "string \<Rightarrow> string option" where
  "extractExceptionType exceptionDetails =
     (case match_before_colon exceptionDetails of
        Some group1 \<Rightarrow> Some (trim group1)
      | None \<Rightarrow> None)"

definition extractExceptionMessage :: "string \<Rightarrow> string option" where
  "extractExceptionMessage exceptionDetails =
     (let lines = split (CHR 0x0A) exceptionDetails
      in case lines of
           firstLine # _ \<Rightarrow>
             (let colonIndex = indexOf firstLine (CHR '':'')
              in if colonIndex > 0 then Some (trim (substring firstLine (colonIndex + 1)))
                 else None)
         | [] \<Rightarrow> None)"

definition getOperationTypeName :: "int \<Rightarrow> string" where
  "getOperationTypeName operationType =
     (case map_of
        [(0, ''None''), (1, ''Create''), (2, ''Update''), (3, ''Delete''), (4, ''Retrieve''),
         (5, ''RetrieveMultiple''), (6, ''Associate''), (7, ''Disassociate'')] operationType of
        Some n \<Rightarrow> (if n \<noteq> [] then n else ''Unknown'')
      | None \<Rightarrow> ''Unknown'')"

record parsed_exception =
  hasException :: bool
  exceptionType :: "string option"
  exceptionMessage :: "string option"
  stackTrace :: "string js"

record parsed_log = tracelog_row +
  modeName :: string
  operationTypeName :: string
  parsed :: parsed_exception

definition parse_exception :: "string js \<Rightarrow> parsed_exception" where
  "parse_exception details =
     \<lparr>hasException = truthy details,
      exceptionType =
        (case details of
           Val text \<Rightarrow> (if truthy details then extractExceptionType text else None)
         | _ \<Rightarrow> None),
      exceptionMessage =
        (case details of
           Val text \<Rightarrow> (if truthy details then extractExceptionMessage text else None)
         | _ \<Rightarrow> None),
      stackTrace = details\<rparr>"

definition parse_log :: "tracelog_row \<Rightarrow> parsed_log" where
  "parse_log log =
     tracelog_row.extend log
       (parsed_log.fields
          (if tracelog_row.mode log = 0 then ''Synchronous'' else ''Asynchronous'')
          (getOperationTypeName (operationtype log))
          (parse_exception (exceptiondetails log)))"

record trace_options =
  opt_entityName :: "string js"
  opt_messageName :: "string js"
  opt_correlationId :: "string js"
  opt_pluginStepId :: "string js"
  opt_exceptionOnly :: "bool option"
  opt_hoursBack :: "int option"
  opt_maxRecords :: "int option"

text \<open>A destructuring default applies when the option is left out.\<close>

definition with_default :: "'a \<Rightarrow> 'a option \<Rightarrow> 'a" where
  "with_default d x = (case x of None \<Rightarrow> d | Some v \<Rightarrow> v)"

definition clause_if :: "string js \<Rightarrow> (string \<Rightarrow> filter_clause) \<Rightarrow> filter_clause list" where
  "clause_if x mk = (case x of Val v \<Rightarrow> (if truthy x then [mk v] else []) | _ \<Rightarrow> [])"

record trace_logs =
  totalCount :: nat
  logs :: "parsed_log list"

text \<open>
  The date arithmetic of \<open>new Date()\<close>, \<open>getHours\<close>, \<open>setHours\<close> and \<open>toISOString\<close>, on time
  values in milliseconds. The clock supplies the current time value and the time zone
  (the conversions \<open>LocalTime\<close> and \<open>UTC\<close>). \<open>hoursBack\<close> is a whole number of hours, for
  which the arithmetic of the source is exact. \<open>TimeClip\<close> turns a time value beyond
  8.64e15 ms into an invalid date, on which \<open>toISOString\<close> throws.
\<close>

record clock =
  now :: int
  LocalTime :: "int \<Rightarrow> int"
  UTC :: "int \<Rightarrow> int"

definition msPerDay :: int where "msPerDay = 86400000"
definition msPerHour :: int where "msPerHour = 3600000"
definition msPerMinute :: int where "msPerMinute = 60000"
definition msPerSecond :: int where "msPerSecond = 1000"

definition Day :: "int \<Rightarrow> int" where "Day t = t div msPerDay"
definition HourFromTime :: "int \<Rightarrow> int" where "HourFromTime t = (t div msPerHour) mod 24"
definition MinFromTime :: "int \<Rightarrow> int" where "MinFromTime t = (t div msPerMinute) mod 60"
definition SecFromTime :: "int \<Rightarrow> int" where "SecFromTime t = (t div msPerSecond) mod 60"
definition msFromTime :: "int \<Rightarrow> int" where "msFromTime t = t mod msPerSecond"

definition MakeTime :: "int \<Rightarrow> int \<Rightarrow> int \<Rightarrow> int \<Rightarrow> int" where
  "MakeTime hour minute sec ms =
     hour * msPerHour + minute * msPerMinute + sec * msPerSecond + ms"

definition MakeDate :: "int \<Rightarrow> int \<Rightarrow> int" where
  "MakeDate day time = day * msPerDay + time"

text \<open>\<open>None\<close> is the invalid date (time value \<open>NaN\<close>).\<close>

definition TimeClip :: "int \<Rightarrow> int option" where
  "TimeClip time = (if \<bar>time\<bar> > 8640000000000000 then None else Some time)"

text \<open>\<open>date.setHours(date.getHours() - hoursBack)\<close> on \<open>date = new Date()\<close>.\<close>

definition setHours_back :: "clock \<Rightarrow> int \<Rightarrow> int option" where
  "setHours_back clock hoursBack =
     (let hour = HourFromTime (LocalTime clock (now clock)) - hoursBack;
          t = LocalTime clock (now clock);
          date = MakeDate (Day t) (MakeTime hour (MinFromTime t) (SecFromTime t) (msFromTime t))
      in TimeClip (UTC clock date))"

text \<open>
  \<open>date.toISOString()\<close>: throws on the invalid date; otherwise the string written for the
  time value, which stands for it here.
\<close>

definition toISOString :: "int option \<Rightarrow> error + int" where
  "toISOString date = (case date of None \<Rightarrow> Inl RangeError | Some tv \<Rightarrow> Inr tv)"

text \<open>
  The conjunctive filter: the time bound, then one clause per supplied option. The time
  bound is pushed first, so an invalid date throws before any other work.
\<close>

definition trace_filters :: "clock \<Rightarrow> trace_options \<Rightarrow> error + filter_clause list" where
  "trace_filters clock options =
     (let exceptionOnly = with_default False (opt_exceptionOnly options);
          hoursBack = with_default 24 (opt_hoursBack options);
          dateThreshold = setHours_back clock hoursBack
      in case toISOString dateThreshold of
           Inl e \<Rightarrow> Inl e
         | Inr isoString \<Rightarrow>
             Inr ([Createdon_gt isoString]
                  @ clause_if (opt_entityName options) Primaryentity_eq
                  @ clause_if (opt_messageName options) Messagename_eq
                  @ clause_if (opt_correlationId options) Correlationid_eq
                  @ clause_if (opt_pluginStepId options) Stepid_eq
                  @ (if exceptionOnly then [Exceptiondetails_ne_null] else [])))"

definition getPluginTraceLogs :: "client \<Rightarrow> clock \<Rightarrow> trace_options \<Rightarrow> trace_logs io" where
  "getPluginTraceLogs client clock options =
     (let maxRecords = with_default 50 (opt_maxRecords options)
      in case trace_filters clock options of
           Inl e \<Rightarrow> throws e
         | Inr filters \<Rightarrow>
             await (request (Get_plugintracelogs filters maxRecords)
                      (get_plugintracelogs client filters maxRecords))
               (\<lambda>rows.
                  let parsedLogs = map parse_log rows
                  in returns \<lparr>totalCount = length parsedLogs, logs = parsedLogs\<rparr>))"

section \<open>Notions used to state the properties\<close>

text \<open>All steps held by the three stage buckets of one message group, and of all groups.\<close>

definition bucket_steps :: "message_group \<Rightarrow> formatted_step list" where
  "bucket_steps g =
     preValidation (stages g) @ preOperation (stages g) @ postOperation (stages g)"

definition bucketed_steps :: "message_group list \<Rightarrow> formatted_step list" where
  "bucketed_steps gs = concat (map bucket_steps gs)"

definition has_bucket_stage :: "formatted_step \<Rightarrow> bool" where
  "has_bucket_stage s = (stage s = 10 \<or> stage s = 20 \<or> stage s = 40)"

text \<open>The order the service requests from the remote source: \<open>$orderby=stage,rank\<close>.\<close>

definition stage_rank_le :: "step_row \<Rightarrow> step_row \<Rightarrow> bool" where
  "stage_rank_le a b =
     (step_row.stage a < step_row.stage b \<or>
      (step_row.stage a = step_row.stage b \<and> step_row.rank a \<le> step_row.rank b))"

definition ordered_by_stage_rank :: "step_row list \<Rightarrow> bool" where
  "ordered_by_stage_rank rows = sorted_wrt stage_rank_le rows"

text \<open>
  The group that the grouping loop holds for key \<open>k\<close> once the steps \<open>xs\<close> are processed,
  and the whole map: one group per distinct message, in order of first occurrence.
\<close>

definition group_for :: "formatted_step list \<Rightarrow> string js \<Rightarrow> message_group" where
  "group_for xs k =
     \<lparr>messageName = k,
      stages =
        \<lparr>preValidation = filter (\<lambda>s. message s = k \<and> stage s = 10) xs,
         preOperation = filter (\<lambda>s. message s = k \<and> stage s = 20) xs,
         postOperation = filter (\<lambda>s. message s = k \<and> stage s = 40) xs\<rparr>\<rparr>"

definition groups_of :: "formatted_step list \<Rightarrow> (string js, message_group) js_map" where
  "groups_of xs = map (\<lambda>k. (k, group_for xs k)) (new_Set (map message xs))"

text \<open>
  The number a decimal numeral denotes, to say which count a summary line states.
\<close>

definition digit_value :: "char \<Rightarrow> nat" where
  "digit_value c = of_char c - 48"

definition decimal_value :: "string \<Rightarrow> nat" where
  "decimal_value s = foldl (\<lambda>acc c. 10 * acc + digit_value c) 0 s"

text \<open>
  The trace-log parse as the specification words it: the first line is the text up to
  the first line feed; the type is what precedes the first colon of that line, the
  message what follows it, both trimmed; both are null when that line has no colon.
\<close>

definition first_line :: "string \<Rightarrow> string" where
  "first_line text = takeWhile (\<lambda>c. c \<noteq> CHR 0x0A) text"

definition spec_exceptionType :: "string \<Rightarrow> string option" where
  "spec_exceptionType text =
     (let l = first_line text
      in if CHR '':'' \<in> set l then Some (trim (takeWhile (\<lambda>c. c \<noteq> CHR '':'') l)) else None)"

definition spec_exceptionMessage :: "string \<Rightarrow> string option" where
  "spec_exceptionMessage text =
     (let l = first_line text
      in if CHR '':'' \<in> set l then Some (trim (tl (dropWhile (\<lambda>c. c \<noteq> CHR '':'') l))) else None)"


section \<open>Sample remote sources\<close>




definition no_collection_post :: "string post_client" where
  "no_collection_post url body = Inr (Val \<lparr>EntityCollection = Undefined\<rparr>)"

definition no_entities_post :: "string post_client" where
  "no_entities_post url body = Inr (Val \<lparr>EntityCollection = Val \<lparr>Entities = Undefined\<rparr>\<rparr>)"

text \<open>
  A remote source holding one assembly with one plugin type, and answering every step
  query with \<open>rows\<close>, every image query with \<open>imgs\<close> and every trace-log query with
  \<open>traces\<close>.
\<close>

definition sample_client :: "step_row list \<Rightarrow> image_row list \<Rightarrow> tracelog_row list \<Rightarrow> client"
  where
  "sample_client rows imgs traces =
     \<lparr>get_pluginassemblies =
        (\<lambda>n. Inr (Val [\<lparr>pluginassembly_row.pluginassemblyid = ''asm-1''\<rparr>])),
      get_plugintypes = (\<lambda>a. Inr [\<lparr>plugintypeid = ''type-1''\<rparr>]),
      get_steps_of_plugintypes = (\<lambda>ids d. Inr rows),
      get_steps_of_entity = (\<lambda>e m d. Inr rows),
      get_plugintype =
        (\<lambda>t. Inr \<lparr>plugintype_expanded.pluginassemblyid =
                    Val \<lparr>assembly_name = Val ''Contoso.Plugins'',
                         assembly_version = Val ''1.0.0.0''\<rparr>\<rparr>),
      get_stepimages = (\<lambda>ids. Inr imgs),
      get_plugintracelogs = (\<lambda>f n. Inr traces)\<rparr>"

definition sample_step :: "string \<Rightarrow> string \<Rightarrow> string \<Rightarrow> int \<Rightarrow> int \<Rightarrow> step_row" where
  "sample_step stepId stepName msgName stg rnk =
     \<lparr>step_row.sdkmessageprocessingstepid = stepId, step_row.name = stepName,
      step_row.stage = stg, step_row.mode = 0, step_row.rank = rnk, step_row.statuscode = 1,
      filteringattributes = Null, supporteddeployment = 0,
      plugintypeid_value = Val ''type-1'',
      sdkmessageid = Val \<lparr>sdkmessage_name = Val msgName\<rparr>,
      step_row.plugintypeid = Val \<lparr>typename = Val ''Contoso.Plugins.AccountPlugin''\<rparr>,
      impersonatinguserid = Null\<rparr>"

text \<open>A Create step and an Update step, neither with filtering attributes.\<close>

definition contoso_steps :: "step_row list" where
  "contoso_steps =
     [sample_step ''step-1'' ''OnCreate'' ''Create'' 20 1,
      sample_step ''step-2'' ''OnUpdate'' ''Update'' 20 2]"

text \<open>The same, registered under one name.\<close>

definition shared_name_steps :: "step_row list" where
  "shared_name_steps =
     [sample_step ''step-1'' ''AccountPlugin'' ''Create'' 20 1,
      sample_step ''step-2'' ''AccountPlugin'' ''Update'' 20 2]"

text \<open>Twelve Update steps, none with filtering attributes.\<close>

definition twelve_update_steps :: "step_row list" where
  "twelve_update_steps =
     map (\<lambda>k. sample_step k k ''Update'' 20 1)
       [''u01'', ''u02'', ''u03'', ''u04'', ''u05'', ''u06'',
        ''u07'', ''u08'', ''u09'', ''u10'', ''u11'', ''u12'']"

text \<open>A Create step and a Delete step under one name.\<close>

definition shared_name_delete_steps :: "step_row list" where
  "shared_name_delete_steps =
     [sample_step ''step-1'' ''ContactPlugin'' ''Create'' 40 1,
      sample_step ''step-2'' ''ContactPlugin'' ''Delete'' 40 2]"

text \<open>Three steps of one entity, in the order \<open>stage, rank\<close>.\<close>

definition account_steps :: "step_row list" where
  "account_steps =
     [sample_step ''step-1'' ''ValidateUpdate'' ''Update'' 10 1,
      sample_step ''step-2'' ''BeforeUpdate'' ''Update'' 20 1,
      sample_step ''step-3'' ''AfterCreate'' ''Create'' 40 1]"

text \<open>A single step registered on stage 30.\<close>

definition main_operation_steps :: "step_row list" where
  "main_operation_steps = [sample_step ''step-1'' ''OnMain'' ''Create'' 30 1]"

text \<open>A single step whose \<open>sdkmessageid\<close> expansion came back \<open>null\<close>.\<close>

definition unresolved_message_steps :: "step_row list" where
  "unresolved_message_steps =
     [(sample_step ''step-1'' ''OnAny'' ''Create'' 20 1)\<lparr>sdkmessageid := Null\<rparr>]"

text \<open>What \<open>format_step\<close> makes of a \<open>sample_step\<close> without images.\<close>

definition sample_formatted ::
  "string \<Rightarrow> string \<Rightarrow> string js \<Rightarrow> int \<Rightarrow> string \<Rightarrow> int \<Rightarrow> formatted_step" where
  "sample_formatted stepId stepName msg stg stgName rnk =
     \<lparr>sdkmessageprocessingstepid = stepId, name = stepName, stage = stg,
      stageName = stgName, mode = 0, modeName = ''Synchronous'', rank = rnk,
      message = msg, pluginType = Val ''Contoso.Plugins.AccountPlugin'',
      assemblyName = Val ''Contoso.Plugins'', assemblyVersion = Val ''1.0.0.0'',
      filteringAttributes = [], statuscode = 1, enabled = True, deployment = ''Server'',
      impersonatingUser = Undefined, hasPreImage = False, hasPostImage = False,
      images = []\<rparr>"

text \<open>The pipelines expected for the three step lists above.\<close>

definition account_pipeline :: entity_pipeline where
  "account_pipeline =
     \<lparr>entity = ''account'',
      messages =
        [\<lparr>messageName = Val ''Update'',
          stages =
            \<lparr>preValidation =
               [sample_formatted ''step-1'' ''ValidateUpdate'' (Val ''Update'') 10
                  ''PreValidation'' 1],
             preOperation =
               [sample_formatted ''step-2'' ''BeforeUpdate'' (Val ''Update'') 20
                  ''PreOperation'' 1],
             postOperation = []\<rparr>\<rparr>,
         \<lparr>messageName = Val ''Create'',
          stages =
            \<lparr>preValidation = [], preOperation = [],
             postOperation =
               [sample_formatted ''step-3'' ''AfterCreate'' (Val ''Create'') 40
                  ''PostOperation'' 1]\<rparr>\<rparr>],
      steps =
        [sample_formatted ''step-1'' ''ValidateUpdate'' (Val ''Update'') 10 ''PreValidation'' 1,
         sample_formatted ''step-2'' ''BeforeUpdate'' (Val ''Update'') 20 ''PreOperation'' 1,
         sample_formatted ''step-3'' ''AfterCreate'' (Val ''Create'') 40 ''PostOperation'' 1],
      executionOrder = [''ValidateUpdate'', ''BeforeUpdate'', ''AfterCreate'']\<rparr>"

definition main_operation_pipeline :: entity_pipeline where
  "main_operation_pipeline =
     \<lparr>entity = ''account'',
      messages =
        [\<lparr>messageName = Val ''Create'',
          stages = \<lparr>preValidation = [], preOperation = [], postOperation = []\<rparr>\<rparr>],
      steps = [sample_formatted ''step-1'' ''OnMain'' (Val ''Create'') 30 ''PostOperation'' 1],
      executionOrder = [''OnMain'']\<rparr>"

definition unresolved_message_pipeline :: entity_pipeline where
  "unresolved_message_pipeline =
     \<lparr>entity = ''account'',
      messages =
        [\<lparr>messageName = Undefined,
          stages =
            \<lparr>preValidation = [],
             preOperation =
               [sample_formatted ''step-1'' ''OnAny'' Undefined 20 ''PreOperation'' 1],
             postOperation = []\<rparr>\<rparr>],
      steps = [sample_formatted ''step-1'' ''OnAny'' Undefined 20 ''PreOperation'' 1],
      executionOrder = [''OnAny'']\<rparr>"

text \<open>A trace-log row with the given exception text, and query options.\<close>

definition sample_trace :: "string \<Rightarrow> tracelog_row" where
  "sample_trace text =
     \<lparr>tracelog_row.mode = 0, operationtype = 2, exceptiondetails = Val text\<rparr>"

text \<open>A clock in the UTC time zone, at 2026-11-03T06:35:00.000Z.\<close>

definition sample_clock :: clock where
  "sample_clock = \<lparr>now = 1793687700000, LocalTime = (\<lambda>t. t), UTC = (\<lambda>t. t)\<rparr>"

definition sample_options :: trace_options where
  "sample_options =
     \<lparr>opt_entityName = Val ''account'', opt_messageName = Undefined,
      opt_correlationId = Undefined, opt_pluginStepId = Undefined,
      opt_exceptionOnly = Some True, opt_hoursBack = None, opt_maxRecords = None\<rparr>"

section \<open>Properties of DependencyService\<close>



text \<open>
  C10. When \<open>checkDependencies\<close> succeeds with an object that has no \<open>EntityCollection\<close>,
  or whose \<open>EntityCollection\<close> has no \<open>Entities\<close>, \<open>checkDeleteEligibility\<close> takes the
  dependency list to be empty and returns \<open>{canDelete: true, dependencies: []}\<close>.
\<close>

theorem checkDeleteEligibility_missing_Entities_can_delete:
  assumes "checkDependencies client componentId componentType = Inr (Val result)"
    and "EntityCollection result = Undefined \<or> EntityCollection result = Null \<or>
         (\<exists>ec. EntityCollection result = Val ec \<and>
               (Entities ec = Undefined \<or> Entities ec = Null))"
  shows "checkDeleteEligibility client componentId componentType =
           Inr \<lparr>canDelete = True, dependencies = []\<rparr>"
  using assms
  by (auto simp: checkDeleteEligibility_def checkDeleteEligibility_try_def read_Entities_def
           or_empty_def Let_def)

theorem checkDeleteEligibility_missing_Entities_can_delete_witness:
  "checkDeleteEligibility no_collection_post ''c1'' 92 =
     Inr \<lparr>canDelete = True, dependencies = []\<rparr> \<and>
   checkDeleteEligibility no_entities_post ''c1'' 92 =
     Inr \<lparr>canDelete = True, dependencies = []\<rparr>"
proof -
  have a: "checkDependencies no_collection_post ''c1'' 92 =
      Inr (Val \<lparr>EntityCollection = Undefined\<rparr>)"
    by (simp add: checkDependencies_def no_collection_post_def)
  have b: "checkDependencies no_entities_post ''c1'' 92 =
      Inr (Val \<lparr>EntityCollection = Val \<lparr>Entities = Undefined\<rparr>\<rparr>)"
    by (simp add: checkDependencies_def no_entities_post_def)
  show ?thesis
    using checkDeleteEligibility_missing_Entities_can_delete [OF a]
          checkDeleteEligibility_missing_Entities_can_delete [OF b]
    by simp
qed


section \<open>Properties of getPluginAssemblyComplete\<close>

lemma await_Inr:
  "await m f = (Inr y, qs) \<Longrightarrow>
     \<exists>x q1 q2. m = (Inr x, q1) \<and> f x = (Inr y, q2) \<and> qs = q1 @ q2"
  by (auto simp: await_def split: prod.splits sum.splits)

text \<open>What a successful run has fetched, requested and built.\<close>

lemma getPluginAssemblyComplete_Inr:
  assumes "getPluginAssemblyComplete client a d = (Inr r, qs)"
  shows "\<exists>asm more pts allSteps allImages q1 q2.
           get_pluginassemblies client a = Inr (Val (asm # more)) \<and>
           get_plugintypes client (pluginassembly_row.pluginassemblyid asm) = Inr pts \<and>
           fetch_steps_of_plugintypes client (map plugintypeid pts) d = (Inr allSteps, q1) \<and>
           fetch_images client (map step_row.sdkmessageprocessingstepid allSteps) =
             (Inr allImages, q2) \<and>
           qs = [Get_pluginassemblies a,
                 Get_plugintypes (pluginassembly_row.pluginassemblyid asm)] @ q1 @ q2 \<and>
           r = \<lparr>assembly = asm, pluginTypes = pts,
                steps = map (attach_images allImages) allSteps,
                validation = validate allSteps (map (attach_images allImages) allSteps)\<rparr>"
  using assms
  unfolding getPluginAssemblyComplete_def
  by (auto simp: Let_def returns_def throws_def request_def dest!: await_Inr
           split: js.splits list.splits)

lemma validation_lists:
  "stepsWithoutFilteringAttributes (validate allSteps sw) =
     map step_row.name (filter lacks_filtering_attributes sw)"
  "stepsWithoutImages (validate allSteps sw) = map step_row.name (filter lacks_images sw)"
  by (simp_all add: validate_def push_images_issue_def push_filtering_issue_def
        initial_validation_def)

lemma validation_issues:
  "potentialIssues (validate allSteps sw) =
     (if stepsWithoutFilteringAttributes (validate allSteps sw) \<noteq> []
      then [string_of_nat (length (stepsWithoutFilteringAttributes (validate allSteps sw))) @
            '' Update/Delete steps without filtering attributes (performance concern)'']
      else []) @
     (if stepsWithoutImages (validate allSteps sw) \<noteq> []
      then [string_of_nat (length (stepsWithoutImages (validate allSteps sw))) @
            '' Update/Delete steps without images (may need entity data)'']
      else [])"
  by (simp add: validate_def push_images_issue_def push_filtering_issue_def
        initial_validation_def)

text \<open>The filtering-attribute list is empty exactly when the raw column is falsy.\<close>

lemma filtering_attribute_list_empty_iff:
  "filtering_attribute_list fa = [] \<longleftrightarrow> \<not> truthy fa"
proof (cases fa)
  case (Val s)
  have "split c s \<noteq> []" for c
    by (induction s) (auto split: list.splits)
  with Val show ?thesis by (simp add: filtering_attribute_list_def)
qed (simp_all add: filtering_attribute_list_def)

lemma distinct_names_differ:
  fixes s t :: step_with_images
  assumes "distinct (map step_row.name xs)" "s \<in> set xs" "t \<in> set xs" "s \<noteq> t"
  shows "step_row.name s \<noteq> step_row.name t"
  using assms by (meson distinct_map inj_onD)

text \<open>
  C3, as amended. In the report of \<open>getPluginAssemblyComplete\<close>,
  \<open>stepsWithoutFilteringAttributes\<close> holds, in step order, one entry per step whose
  message is Update or Delete and whose filtering-attribute list is empty: the name of
  that step. So the name of every such step is in the list, and every entry is the name
  of such a step. The name of a step on another message is in the list only if such a
  step shares it; with pairwise distinct step names it never is.
\<close>

theorem stepsWithoutFilteringAttributes_entries:
  assumes "getPluginAssemblyComplete client asmName inclDisabled = (Inr r, qs)"
  shows "stepsWithoutFilteringAttributes (validation r) =
           map step_row.name
             (filter (\<lambda>s. is_update_or_delete (message_name (sdkmessageid s)) \<and>
                          filtering_attribute_list (filteringattributes s) = [])
                (assembly_complete.steps r)) \<and>
         (\<forall>s \<in> set (assembly_complete.steps r).
            is_update_or_delete (message_name (sdkmessageid s)) \<and>
            filtering_attribute_list (filteringattributes s) = [] \<longrightarrow>
            step_row.name s \<in> set (stepsWithoutFilteringAttributes (validation r))) \<and>
         (\<forall>n \<in> set (stepsWithoutFilteringAttributes (validation r)).
            \<exists>s \<in> set (assembly_complete.steps r).
              step_row.name s = n \<and>
              is_update_or_delete (message_name (sdkmessageid s)) \<and>
              filtering_attribute_list (filteringattributes s) = []) \<and>
         (distinct (map step_row.name (assembly_complete.steps r)) \<longrightarrow>
            (\<forall>s \<in> set (assembly_complete.steps r).
               \<not> is_update_or_delete (message_name (sdkmessageid s)) \<longrightarrow>
               step_row.name s \<notin> set (stepsWithoutFilteringAttributes (validation r))))"
proof -
  from getPluginAssemblyComplete_Inr [OF assms] obtain allSteps
    where v: "validation r = validate allSteps (assembly_complete.steps r)"
    by auto
  have eq: "stepsWithoutFilteringAttributes (validation r) =
           map step_row.name
             (filter (\<lambda>s. is_update_or_delete (message_name (sdkmessageid s)) \<and>
                          filtering_attribute_list (filteringattributes s) = [])
                (assembly_complete.steps r))"
    unfolding v validation_lists
    by (rule arg_cong [where f = "map step_row.name"], rule filter_cong)
       (simp_all add: lacks_filtering_attributes_def filtering_attribute_list_empty_iff)
  show ?thesis
    unfolding eq using distinct_names_differ [of "assembly_complete.steps r"]
    by auto
qed

theorem stepsWithoutFilteringAttributes_entries_witness:
  "stepsWithoutFilteringAttributes
     (validate contoso_steps (map (attach_images []) contoso_steps)) = [''OnUpdate''] \<and>
   ''OnCreate'' \<notin> set (stepsWithoutFilteringAttributes
     (validate contoso_steps (map (attach_images []) contoso_steps)))"
proof -
  have run: "getPluginAssemblyComplete (sample_client contoso_steps [] []) ''Contoso.Plugins''
      False =
      (Inr \<lparr>assembly = \<lparr>pluginassembly_row.pluginassemblyid = ''asm-1''\<rparr>,
            pluginTypes = [\<lparr>plugintypeid = ''type-1''\<rparr>],
            steps = map (attach_images []) contoso_steps,
            validation = validate contoso_steps (map (attach_images []) contoso_steps)\<rparr>,
       [Get_pluginassemblies ''Contoso.Plugins'', Get_plugintypes ''asm-1'',
        Get_steps_of_plugintypes [''type-1''] False,
        Get_stepimages [''step-1'', ''step-2'']])"
    by code_simp
  have names: "distinct (map step_row.name (map (attach_images []) contoso_steps))"
    by code_simp
  have create: "attach_images [] (sample_step ''step-1'' ''OnCreate'' ''Create'' 20 1)
      \<in> set (map (attach_images []) contoso_steps)"
    by (simp add: contoso_steps_def)
  have other: "\<not> is_update_or_delete (message_name (sdkmessageid
      (attach_images [] (sample_step ''step-1'' ''OnCreate'' ''Create'' 20 1))))"
    by code_simp
  have nm: "step_row.name (attach_images [] (sample_step ''step-1'' ''OnCreate'' ''Create'' 20 1))
      = ''OnCreate''"
    by code_simp
  have lst: "map step_row.name
             (filter (\<lambda>s. is_update_or_delete (message_name (sdkmessageid s)) \<and>
                          filtering_attribute_list (filteringattributes s) = [])
                (map (attach_images []) contoso_steps)) = [''OnUpdate'']"
    by code_simp
  from stepsWithoutFilteringAttributes_entries [OF run] names create other nm lst
  show ?thesis
    by (simp del: set_map)
qed

text \<open>
  C3 as stated fails when two steps share a name: the Create step of this assembly is
  named \<open>AccountPlugin\<close>, and \<open>AccountPlugin\<close> is in \<open>stepsWithoutFilteringAttributes\<close>.
\<close>

theorem stepsWithoutFilteringAttributes_shared_name_counterexample:
  "getPluginAssemblyComplete (sample_client shared_name_steps [] []) ''Contoso.Plugins'' False =
     (Inr \<lparr>assembly = \<lparr>pluginassembly_row.pluginassemblyid = ''asm-1''\<rparr>,
           pluginTypes = [\<lparr>plugintypeid = ''type-1''\<rparr>],
           steps = map (attach_images []) shared_name_steps,
           validation =
             \<lparr>hasDisabledSteps = False, hasAsyncSteps = False, hasSyncSteps = True,
              stepsWithoutFilteringAttributes = [''AccountPlugin''],
              stepsWithoutImages = [''AccountPlugin''],
              potentialIssues =
                [''1 Update/Delete steps without filtering attributes (performance concern)'',
                 ''1 Update/Delete steps without images (may need entity data)'']\<rparr>\<rparr>,
      [Get_pluginassemblies ''Contoso.Plugins'', Get_plugintypes ''asm-1'',
       Get_steps_of_plugintypes [''type-1''] False,
       Get_stepimages [''step-1'', ''step-2'']]) \<and>
   map step_row.name shared_name_steps = [''AccountPlugin'', ''AccountPlugin''] \<and>
   map (\<lambda>s. message_name (sdkmessageid s)) shared_name_steps = [Val ''Create'', Val ''Update'']"
  by code_simp


text \<open>
  C4, as amended. In the report of \<open>getPluginAssemblyComplete\<close>, \<open>stepsWithoutImages\<close>
  holds, in step order, one entry per step whose message is Update or Delete and which
  has no bound image: the name of that step. So the name of every such step is in the
  list, and every entry is the name of such a step. The name of a Create step is in the
  list only if such a step shares it; with pairwise distinct step names it never is,
  whatever its images.
\<close>

theorem stepsWithoutImages_entries:
  assumes "getPluginAssemblyComplete client asmName inclDisabled = (Inr r, qs)"
  shows "stepsWithoutImages (validation r) =
           map step_row.name
             (filter (\<lambda>s. length (step_with_images.images s) = 0 \<and>
                          is_update_or_delete (message_name (sdkmessageid s)))
                (assembly_complete.steps r)) \<and>
         (\<forall>s \<in> set (assembly_complete.steps r).
            is_update_or_delete (message_name (sdkmessageid s)) \<and>
            length (step_with_images.images s) = 0 \<longrightarrow>
            step_row.name s \<in> set (stepsWithoutImages (validation r))) \<and>
         (\<forall>n \<in> set (stepsWithoutImages (validation r)).
            \<exists>s \<in> set (assembly_complete.steps r).
              step_row.name s = n \<and>
              is_update_or_delete (message_name (sdkmessageid s)) \<and>
              length (step_with_images.images s) = 0) \<and>
         (distinct (map step_row.name (assembly_complete.steps r)) \<longrightarrow>
            (\<forall>s \<in> set (assembly_complete.steps r).
               message_name (sdkmessageid s) = Val ''Create'' \<longrightarrow>
               step_row.name s \<notin> set (stepsWithoutImages (validation r))))"
proof -
  from getPluginAssemblyComplete_Inr [OF assms] obtain allSteps
    where v: "validation r = validate allSteps (assembly_complete.steps r)"
    by auto
  have eq: "stepsWithoutImages (validation r) =
           map step_row.name
             (filter (\<lambda>s. length (step_with_images.images s) = 0 \<and>
                          is_update_or_delete (message_name (sdkmessageid s)))
                (assembly_complete.steps r))"
    unfolding v validation_lists
    by (rule arg_cong [where f = "map step_row.name"], rule filter_cong)
       (simp_all add: lacks_images_def)
  have create: "\<not> is_update_or_delete (Val ''Create'')"
    by (simp add: is_update_or_delete_def)
  show ?thesis
    unfolding eq using distinct_names_differ [of "assembly_complete.steps r"] create
    by auto metis
qed

theorem stepsWithoutImages_entries_witness:
  "stepsWithoutImages (validate contoso_steps (map (attach_images []) contoso_steps)) =
     [''OnUpdate''] \<and>
   ''OnCreate'' \<notin> set (stepsWithoutImages
     (validate contoso_steps (map (attach_images []) contoso_steps)))"
proof -
  have run: "getPluginAssemblyComplete (sample_client contoso_steps [] []) ''Contoso.Plugins''
      False =
      (Inr \<lparr>assembly = \<lparr>pluginassembly_row.pluginassemblyid = ''asm-1''\<rparr>,
            pluginTypes = [\<lparr>plugintypeid = ''type-1''\<rparr>],
            steps = map (attach_images []) contoso_steps,
            validation = validate contoso_steps (map (attach_images []) contoso_steps)\<rparr>,
       [Get_pluginassemblies ''Contoso.Plugins'', Get_plugintypes ''asm-1'',
        Get_steps_of_plugintypes [''type-1''] False,
        Get_stepimages [''step-1'', ''step-2'']])"
    by code_simp
  have names: "distinct (map step_row.name (map (attach_images []) contoso_steps))"
    by code_simp
  have create: "attach_images [] (sample_step ''step-1'' ''OnCreate'' ''Create'' 20 1)
      \<in> set (map (attach_images []) contoso_steps)"
    by (simp add: contoso_steps_def)
  have msg: "message_name (sdkmessageid
      (attach_images [] (sample_step ''step-1'' ''OnCreate'' ''Create'' 20 1))) = Val ''Create''"
    by code_simp
  have nm: "step_row.name (attach_images [] (sample_step ''step-1'' ''OnCreate'' ''Create'' 20 1))
      = ''OnCreate''"
    by code_simp
  have lst: "map step_row.name
             (filter (\<lambda>s. length (step_with_images.images s) = 0 \<and>
                          is_update_or_delete (message_name (sdkmessageid s)))
                (map (attach_images []) contoso_steps)) = [''OnUpdate'']"
    by code_simp
  from stepsWithoutImages_entries [OF run] names create msg nm lst
  show ?thesis
    by (simp del: set_map)
qed

text \<open>
  C4 as stated fails when two steps share a name: the Create step of this assembly is
  named \<open>ContactPlugin\<close> and has no image, and \<open>ContactPlugin\<close> is in \<open>stepsWithoutImages\<close>.
\<close>

theorem stepsWithoutImages_shared_name_counterexample:
  "getPluginAssemblyComplete (sample_client shared_name_delete_steps [] []) ''Contoso.Plugins''
     True =
     (Inr \<lparr>assembly = \<lparr>pluginassembly_row.pluginassemblyid = ''asm-1''\<rparr>,
           pluginTypes = [\<lparr>plugintypeid = ''type-1''\<rparr>],
           steps = map (attach_images []) shared_name_delete_steps,
           validation =
             \<lparr>hasDisabledSteps = False, hasAsyncSteps = False, hasSyncSteps = True,
              stepsWithoutFilteringAttributes = [''ContactPlugin''],
              stepsWithoutImages = [''ContactPlugin''],
              potentialIssues =
                [''1 Update/Delete steps without filtering attributes (performance concern)'',
                 ''1 Update/Delete steps without images (may need entity data)'']\<rparr>\<rparr>,
      [Get_pluginassemblies ''Contoso.Plugins'', Get_plugintypes ''asm-1'',
       Get_steps_of_plugintypes [''type-1''] True,
       Get_stepimages [''step-1'', ''step-2'']]) \<and>
   map step_row.name shared_name_delete_steps = [''ContactPlugin'', ''ContactPlugin''] \<and>
   map (\<lambda>s. message_name (sdkmessageid s)) shared_name_delete_steps =
     [Val ''Create'', Val ''Delete''] \<and>
   map step_with_images.images (map (attach_images []) shared_name_delete_steps) = [[], []]"
  by code_simp

text \<open>The count printed in a summary line is the canonical decimal numeral.\<close>

lemma digit_char_value:
  assumes "d < 10"
  shows "digit_value (digit_char d) = d \<and> digit_char d \<in> set ''0123456789'' \<and>
         (d \<noteq> 0 \<longrightarrow> digit_char d \<noteq> CHR ''0'')"
proof -
  from assms have "d = 0 \<or> d = 1 \<or> d = 2 \<or> d = 3 \<or> d = 4 \<or> d = 5 \<or> d = 6 \<or> d = 7 \<or>
      d = 8 \<or> d = 9"
    by arith
  then show ?thesis
    by (elim disjE) (simp_all add: digit_char_def digit_value_def)
qed

lemma decimal_value_snoc:
  "decimal_value (s @ [c]) = 10 * decimal_value s + digit_value c"
  by (simp add: decimal_value_def)

lemma string_of_nat_nonempty: "string_of_nat n \<noteq> []"
  by (subst string_of_nat.simps) simp

lemma decimal_value_string_of_nat: "decimal_value (string_of_nat n) = n"
proof (induction n rule: string_of_nat.induct)
  case (1 n)
  show ?case
  proof (cases "n < 10")
    case True
    then show ?thesis
      by (subst string_of_nat.simps) (simp add: decimal_value_def digit_char_value)
  next
    case False
    have "n mod 10 < 10" by simp
    with False 1 show ?thesis
      by (subst string_of_nat.simps) (simp add: decimal_value_snoc digit_char_value)
  qed
qed

lemma digits_string_of_nat: "set (string_of_nat n) \<subseteq> set ''0123456789''"
proof (induction n rule: string_of_nat.induct)
  case (1 n)
  show ?case
  proof (cases "n < 10")
    case True
    with digit_char_value [of n] show ?thesis
      by (subst string_of_nat.simps) simp
  next
    case False
    have "n mod 10 < 10" by simp
    with False 1 digit_char_value [of "n mod 10"] show ?thesis
      by (subst string_of_nat.simps) simp
  qed
qed

lemma no_leading_zero: "n \<noteq> 0 \<Longrightarrow> hd (string_of_nat n) \<noteq> CHR ''0''"
proof (induction n rule: string_of_nat.induct)
  case (1 n)
  show ?case
  proof (cases "n < 10")
    case True
    with 1 digit_char_value [of n] show ?thesis
      by (subst string_of_nat.simps) simp
  next
    case False
    then have "n div 10 \<noteq> 0" by simp
    with False 1 show ?thesis
      by (subst string_of_nat.simps) (simp add: string_of_nat_nonempty)
  qed
qed


text \<open>
  C5. In the report of \<open>getPluginAssemblyComplete\<close>, \<open>potentialIssues\<close> holds one line for
  \<open>stepsWithoutFilteringAttributes\<close> if that list is not empty, then one line for
  \<open>stepsWithoutImages\<close> if that list is not empty, and nothing else. Each line starts with
  the count of its list, written as a decimal numeral: digits only, without a leading
  zero, denoting the length of the list. It has two entries when both lists are
  non-empty and none when both are empty.
\<close>

theorem potentialIssues_one_line_per_nonempty_list:
  assumes "getPluginAssemblyComplete client asmName inclDisabled = (Inr r, qs)"
  shows "potentialIssues (validation r) =
           (if stepsWithoutFilteringAttributes (validation r) \<noteq> []
            then [string_of_nat (length (stepsWithoutFilteringAttributes (validation r))) @
                  '' Update/Delete steps without filtering attributes (performance concern)'']
            else []) @
           (if stepsWithoutImages (validation r) \<noteq> []
            then [string_of_nat (length (stepsWithoutImages (validation r))) @
                  '' Update/Delete steps without images (may need entity data)'']
            else []) \<and>
         (\<forall>n. decimal_value (string_of_nat n) = n \<and>
              set (string_of_nat n) \<subseteq> set ''0123456789'' \<and>
              string_of_nat n \<noteq> [] \<and>
              (n \<noteq> 0 \<longrightarrow> hd (string_of_nat n) \<noteq> CHR ''0'')) \<and>
         (stepsWithoutFilteringAttributes (validation r) \<noteq> [] \<and>
          stepsWithoutImages (validation r) \<noteq> [] \<longrightarrow>
            length (potentialIssues (validation r)) = 2) \<and>
         (stepsWithoutFilteringAttributes (validation r) = [] \<and>
          stepsWithoutImages (validation r) = [] \<longrightarrow>
            potentialIssues (validation r) = [])"
proof -
  from getPluginAssemblyComplete_Inr [OF assms] obtain allSteps sw
    where v: "validation r = validate allSteps sw"
    by auto
  have lines: "potentialIssues (validation r) =
           (if stepsWithoutFilteringAttributes (validation r) \<noteq> []
            then [string_of_nat (length (stepsWithoutFilteringAttributes (validation r))) @
                  '' Update/Delete steps without filtering attributes (performance concern)'']
            else []) @
           (if stepsWithoutImages (validation r) \<noteq> []
            then [string_of_nat (length (stepsWithoutImages (validation r))) @
                  '' Update/Delete steps without images (may need entity data)'']
            else [])"
    unfolding v by (rule validation_issues)
  have numeral: "decimal_value (string_of_nat n) = n \<and>
      set (string_of_nat n) \<subseteq> set ''0123456789'' \<and> string_of_nat n \<noteq> [] \<and>
      (n \<noteq> 0 \<longrightarrow> hd (string_of_nat n) \<noteq> CHR ''0'')" for n
    using decimal_value_string_of_nat digits_string_of_nat string_of_nat_nonempty
      no_leading_zero by blast
  from lines have two: "length (potentialIssues (validation r)) = 2"
    if "stepsWithoutFilteringAttributes (validation r) \<noteq> []"
      "stepsWithoutImages (validation r) \<noteq> []"
    using that by simp
  from lines have none: "potentialIssues (validation r) = []"
    if "stepsWithoutFilteringAttributes (validation r) = []"
      "stepsWithoutImages (validation r) = []"
    using that by simp
  from lines numeral two none show ?thesis
    by blast
qed

theorem potentialIssues_one_line_per_nonempty_list_witness:
  "potentialIssues
     (validate twelve_update_steps (map (attach_images []) twelve_update_steps)) =
     [''12 Update/Delete steps without filtering attributes (performance concern)'',
      ''12 Update/Delete steps without images (may need entity data)''] \<and>
   decimal_value ''12'' = 12 \<and>
   potentialIssues (validate contoso_steps (map (attach_images []) contoso_steps)) =
     [''1 Update/Delete steps without filtering attributes (performance concern)'',
      ''1 Update/Delete steps without images (may need entity data)''] \<and>
   potentialIssues
     (validate [sample_step ''step-1'' ''OnCreate'' ''Create'' 20 1]
        (map (attach_images []) [sample_step ''step-1'' ''OnCreate'' ''Create'' 20 1])) = []"
proof -
  let ?twelve = "validate twelve_update_steps (map (attach_images []) twelve_update_steps)"
  let ?one = "validate contoso_steps (map (attach_images []) contoso_steps)"
  let ?create = "[sample_step ''step-1'' ''OnCreate'' ''Create'' 20 1]"
  let ?zero = "validate ?create (map (attach_images []) ?create)"
  have run12: "getPluginAssemblyComplete (sample_client twelve_update_steps [] [])
      ''Contoso.Plugins'' False =
      (Inr \<lparr>assembly = \<lparr>pluginassembly_row.pluginassemblyid = ''asm-1''\<rparr>,
            pluginTypes = [\<lparr>plugintypeid = ''type-1''\<rparr>],
            steps = map (attach_images []) twelve_update_steps,
            validation = ?twelve\<rparr>,
       [Get_pluginassemblies ''Contoso.Plugins'', Get_plugintypes ''asm-1'',
        Get_steps_of_plugintypes [''type-1''] False,
        Get_stepimages [''u01'', ''u02'', ''u03'', ''u04'', ''u05'', ''u06'',
                        ''u07'', ''u08'', ''u09'', ''u10'', ''u11'', ''u12'']])"
    by code_simp
  have twelve: "stepsWithoutFilteringAttributes ?twelve \<noteq> []" "stepsWithoutImages ?twelve \<noteq> []"
    "length (stepsWithoutFilteringAttributes ?twelve) = 12"
    "length (stepsWithoutImages ?twelve) = 12"
    by code_simp+
  have s12: "string_of_nat 12 = ''12''"
    by code_simp
  have run1: "getPluginAssemblyComplete (sample_client contoso_steps [] []) ''Contoso.Plugins''
      False =
      (Inr \<lparr>assembly = \<lparr>pluginassembly_row.pluginassemblyid = ''asm-1''\<rparr>,
            pluginTypes = [\<lparr>plugintypeid = ''type-1''\<rparr>],
            steps = map (attach_images []) contoso_steps,
            validation = ?one\<rparr>,
       [Get_pluginassemblies ''Contoso.Plugins'', Get_plugintypes ''asm-1'',
        Get_steps_of_plugintypes [''type-1''] False,
        Get_stepimages [''step-1'', ''step-2'']])"
    by code_simp
  have one: "stepsWithoutFilteringAttributes ?one \<noteq> []" "stepsWithoutImages ?one \<noteq> []"
    "length (stepsWithoutFilteringAttributes ?one) = 1"
    "length (stepsWithoutImages ?one) = 1"
    by code_simp+
  have s1: "string_of_nat (Suc 0) = ''1''"
    by code_simp
  have run0: "getPluginAssemblyComplete (sample_client ?create [] []) ''Contoso.Plugins'' False =
      (Inr \<lparr>assembly = \<lparr>pluginassembly_row.pluginassemblyid = ''asm-1''\<rparr>,
            pluginTypes = [\<lparr>plugintypeid = ''type-1''\<rparr>],
            steps = map (attach_images []) ?create,
            validation = ?zero\<rparr>,
       [Get_pluginassemblies ''Contoso.Plugins'', Get_plugintypes ''asm-1'',
        Get_steps_of_plugintypes [''type-1''] False,
        Get_stepimages [''step-1'']])"
    by code_simp
  have zero: "stepsWithoutFilteringAttributes ?zero = []" "stepsWithoutImages ?zero = []"
    by code_simp+
  from potentialIssues_one_line_per_nonempty_list [OF run12, THEN conjunct1] twelve
  have "potentialIssues ?twelve =
     [string_of_nat 12 @
        '' Update/Delete steps without filtering attributes (performance concern)'',
      string_of_nat 12 @ '' Update/Delete steps without images (may need entity data)'']"
    by simp
  moreover
  from potentialIssues_one_line_per_nonempty_list
         [OF run12, THEN conjunct2, THEN conjunct1, THEN spec, of 12]
  have "decimal_value (string_of_nat 12) = 12"
    by simp
  ultimately have a: "potentialIssues ?twelve =
     [''12 Update/Delete steps without filtering attributes (performance concern)'',
      ''12 Update/Delete steps without images (may need entity data)''] \<and>
     decimal_value ''12'' = 12"
    by (simp add: s12)
  from potentialIssues_one_line_per_nonempty_list [OF run1, THEN conjunct1] one
  have "potentialIssues ?one =
     [string_of_nat 1 @
        '' Update/Delete steps without filtering attributes (performance concern)'',
      string_of_nat 1 @ '' Update/Delete steps without images (may need entity data)'']"
    by simp
  then have b: "potentialIssues ?one =
     [''1 Update/Delete steps without filtering attributes (performance concern)'',
      ''1 Update/Delete steps without images (may need entity data)'']"
    by (simp add: s1)
  from potentialIssues_one_line_per_nonempty_list [OF run0] zero
  have c: "potentialIssues ?zero = []"
    by simp
  from a b c show ?thesis
    by blast
qed

section \<open>Properties of getEntityPluginPipeline\<close>

subsection \<open>The grouping loop\<close>

lemma set_fold_set_add: "set (fold set_add xs acc) = set xs \<union> set acc"
  by (induction xs arbitrary: acc) (auto simp: set_add_def)

lemma distinct_fold_set_add: "distinct acc \<Longrightarrow> distinct (fold set_add xs acc)"
  by (induction xs arbitrary: acc) (auto simp: set_add_def)

lemma set_new_Set: "set (new_Set xs) = set xs"
  by (simp add: new_Set_def set_fold_set_add)

lemma distinct_new_Set: "distinct (new_Set xs)"
  by (simp add: new_Set_def distinct_fold_set_add)

lemma new_Set_snoc: "new_Set (xs @ [x]) = set_add x (new_Set xs)"
  by (simp add: new_Set_def)

lemma update_keyed_absent:
  "k \<notin> set ks \<Longrightarrow> AList.update k v (map (\<lambda>j. (j, f j)) ks) = map (\<lambda>j. (j, f j)) ks @ [(k, v)]"
  by (induction ks) auto

lemma update_keyed_present:
  "k \<in> set ks \<Longrightarrow> distinct ks \<Longrightarrow>
     AList.update k v (map (\<lambda>j. (j, f j)) ks) = map (\<lambda>j. (j, if j = k then v else f j)) ks"
  by (induction ks) auto

lemma map_of_keyed:
  "map_of (map (\<lambda>j. (j, f j)) ks) k = (if k \<in> set ks then Some (f k) else None)"
  by (induction ks) auto

lemma group_for_snoc:
  "group_for (ys @ [s]) k = (if message s = k then push_step s (group_for ys k) else group_for ys k)"
  by (simp add: group_for_def push_step_def)

lemma group_for_unseen:
  "k \<notin> message ` set ys \<Longrightarrow> group_for ys k = empty_group k"
  by (auto simp: group_for_def empty_group_def filter_empty_conv)

lemma update_keyed_last:
  "k \<notin> set ks \<Longrightarrow>
     AList.update k v (map (\<lambda>j. (j, f j)) ks @ [(k, w)]) = map (\<lambda>j. (j, f j)) ks @ [(k, v)]"
  by (induction ks) auto

lemma map_of_keyed_last:
  "k \<notin> set ks \<Longrightarrow> map_of (map (\<lambda>j. (j, f j)) ks @ [(k, w)]) k = Some w"
  by (induction ks) auto

lemma group_step_groups_of:
  "group_step s (groups_of ys) = Inr (groups_of (ys @ [s]))"
proof (cases "message s \<in> set (new_Set (map message ys))")
  case True
  then show ?thesis
    by (simp add: group_step_def groups_of_def map_has_def map_of_keyed new_Set_snoc
          set_add_def update_keyed_present distinct_new_Set group_for_snoc Let_def)
next
  case False
  let ?k = "message s"
  let ?ks = "new_Set (map message ys)"
  from False have unseen: "?k \<notin> message ` set ys"
    by (simp add: set_new_Set)
  have absent: "\<not> map_has (groups_of ys) ?k"
    using False by (simp add: map_has_def groups_of_def map_of_keyed)
  have added: "AList.update ?k (empty_group ?k) (groups_of ys) =
      map (\<lambda>j. (j, group_for ys j)) ?ks @ [(?k, empty_group ?k)]"
    using False by (simp add: groups_of_def update_keyed_absent)
  have found: "map_of (map (\<lambda>j. (j, group_for ys j)) ?ks @ [(?k, empty_group ?k)]) ?k =
      Some (empty_group ?k)"
    using False by (rule map_of_keyed_last)
  have pushed: "AList.update ?k (push_step s (empty_group ?k))
        (map (\<lambda>j. (j, group_for ys j)) ?ks @ [(?k, empty_group ?k)]) =
      map (\<lambda>j. (j, group_for ys j)) ?ks @ [(?k, push_step s (empty_group ?k))]"
    using False by (rule update_keyed_last)
  have old: "map (\<lambda>j. (j, group_for (ys @ [s]) j)) ?ks = map (\<lambda>j. (j, group_for ys j)) ?ks"
    using False by (intro map_cong) (auto simp: group_for_snoc)
  have target: "groups_of (ys @ [s]) =
      map (\<lambda>j. (j, group_for ys j)) ?ks @ [(?k, push_step s (empty_group ?k))]"
    using False old
    by (simp add: groups_of_def new_Set_snoc set_add_def group_for_snoc
          group_for_unseen [OF unseen])
  show ?thesis
    by (simp only: group_step_def Let_def absent simp_thms if_True added found pushed target
          option.case)
qed

lemma group_steps_groups_of:
  "group_steps xs (groups_of ys) = Inr (groups_of (ys @ xs))"
proof (induction xs arbitrary: ys)
  case Nil
  then show ?case by simp
next
  case (Cons x xs)
  show ?case
    using Cons [of "ys @ [x]"] by (simp add: group_step_groups_of)
qed

lemma group_steps_from_empty: "group_steps xs [] = Inr (groups_of xs)"
  using group_steps_groups_of [of xs "[]"] by (simp add: groups_of_def new_Set_def)


lemma fetch_assemblies_Inr:
  "fetch_assemblies client ids m = (Inr m', qs) \<Longrightarrow> qs = map Get_plugintype ids"
proof (induction ids arbitrary: m qs)
  case Nil
  then show ?case by (simp add: returns_def)
next
  case (Cons t ids)
  from Cons.prems obtain p q1 q2 where
    "request (Get_plugintype t) (get_plugintype client t) = (Inr p, q1)"
    "fetch_assemblies client ids
       (AList.update t (plugintype_expanded.pluginassemblyid p) m) = (Inr m', q2)"
    "qs = q1 @ q2"
    by (auto dest!: await_Inr)
  with Cons.IH show ?case
    by (auto simp: request_def)
qed

lemma fetch_assemblies_total:
  "\<forall>t \<in> set ids. \<exists>p. get_plugintype client t = Inr p \<Longrightarrow>
     \<exists>m'. fetch_assemblies client ids m = (Inr m', map Get_plugintype ids)"
proof (induction ids arbitrary: m)
  case Nil
  then show ?case by (simp add: returns_def)
next
  case (Cons t ids)
  from Cons.prems obtain p where p: "get_plugintype client t = Inr p"
    by auto
  from Cons.prems have "\<forall>t \<in> set ids. \<exists>p. get_plugintype client t = Inr p"
    by simp
  from Cons.IH [OF this, of "AList.update t (plugintype_expanded.pluginassemblyid p) m"]
  obtain m' where
    "fetch_assemblies client ids (AList.update t (plugintype_expanded.pluginassemblyid p) m) =
       (Inr m', map Get_plugintype ids)"
    by blast
  with p show ?case
    by (simp add: await_def request_def)
qed

lemma set_non_null_ids: "set (non_null_ids vs) = {k. Val k \<in> set vs}"
  by (induction vs) (auto simp: non_null_ids_def split: js.splits)

lemma getEntityPluginPipeline_Inr:
  assumes "getEntityPluginPipeline client e mf d = (Inr r, qs)"
  shows "\<exists>rows assemblyMap allImages q2.
           get_steps_of_entity client e (message_clause mf) d = Inr rows \<and>
           fetch_images client (map step_row.sdkmessageprocessingstepid rows) =
             (Inr allImages, q2) \<and>
           qs = Get_steps_of_entity e (message_clause mf) d #
                map Get_plugintype (new_Set (non_null_ids (map plugintypeid_value rows))) @ q2 \<and>
           r = \<lparr>entity = e,
                messages = map_values (groups_of (map (format_step assemblyMap allImages) rows)),
                steps = map (format_step assemblyMap allImages) rows,
                executionOrder = map name (map (format_step assemblyMap allImages) rows)\<rparr>"
  using assms
  unfolding getEntityPluginPipeline_def
  by (auto simp: Let_def returns_def throws_def request_def group_steps_from_empty
           dest!: await_Inr fetch_assemblies_Inr)

lemma fetch_images_total:
  assumes "rows \<noteq> [] \<longrightarrow> (\<exists>imgs. get_stepimages client rows = Inr imgs)"
  shows "\<exists>imgs q. fetch_images client rows = (Inr imgs, q)"
  using assms by (auto simp: fetch_images_def request_def returns_def)

lemma getEntityPluginPipeline_total:
  assumes rows: "get_steps_of_entity client e (message_clause mf) d = Inr rows"
    and types: "\<forall>t. Val t \<in> set (map plugintypeid_value rows) \<longrightarrow>
                  (\<exists>p. get_plugintype client t = Inr p)"
    and imgs: "rows \<noteq> [] \<longrightarrow>
                 (\<exists>imgs. get_stepimages client
                            (map step_row.sdkmessageprocessingstepid rows) = Inr imgs)"
  shows "\<exists>r qs. getEntityPluginPipeline client e mf d = (Inr r, qs)"
proof -
  let ?ids = "new_Set (non_null_ids (map plugintypeid_value rows))"
  from types have "\<forall>t \<in> set ?ids. \<exists>p. get_plugintype client t = Inr p"
    by (simp add: set_new_Set set_non_null_ids)
  from fetch_assemblies_total [OF this, of "[]"] obtain m where
    m: "fetch_assemblies client ?ids [] = (Inr m, map Get_plugintype ?ids)"
    by blast
  from imgs have "map step_row.sdkmessageprocessingstepid rows \<noteq> [] \<longrightarrow>
      (\<exists>imgs. get_stepimages client (map step_row.sdkmessageprocessingstepid rows) = Inr imgs)"
    by simp
  from fetch_images_total [OF this] obtain fetched q where
    i: "fetch_images client (map step_row.sdkmessageprocessingstepid rows) = (Inr fetched, q)"
    by blast
  show ?thesis
    by (simp add: getEntityPluginPipeline_def rows m i await_def request_def returns_def
          Let_def group_steps_from_empty)
qed

lemma format_step_sel:
  "name (format_step m i row) = step_row.name row"
  "stage (format_step m i row) = step_row.stage row"
  "rank (format_step m i row) = step_row.rank row"
  "message (format_step m i row) = message_name (sdkmessageid row)"
  "stageName (format_step m i row) =
     (if step_row.stage row = 10 then ''PreValidation''
      else if step_row.stage row = 20 then ''PreOperation'' else ''PostOperation'')"
  by (simp_all add: format_step_def Let_def)

lemma sum_filter_by_key:
  "distinct ks \<Longrightarrow>
     (\<Sum>k\<leftarrow>ks. filter_mset (\<lambda>s. f s = k \<and> P s) M) = filter_mset (\<lambda>s. f s \<in> set ks \<and> P s) M"
  by (induction ks) (auto simp: multiset_eq_iff)

lemma mset_bucket_steps_group_for:
  "mset (bucket_steps (group_for xs k)) =
     filter_mset (\<lambda>s. message s = k \<and> has_bucket_stage s) (mset xs)"
  by (auto simp: bucket_steps_def group_for_def has_bucket_stage_def multiset_eq_iff)

lemma mset_bucketed_groups_of:
  "mset (bucketed_steps (map_values (groups_of xs))) = mset (filter has_bucket_stage xs)"
proof -
  let ?ks = "new_Set (map message xs)"
  have "mset (bucketed_steps (map_values (groups_of xs))) =
      (\<Sum>k\<leftarrow>?ks. mset (bucket_steps (group_for xs k)))"
    by (simp add: bucketed_steps_def map_values_def groups_of_def mset_concat o_def)
  also have "\<dots> = filter_mset (\<lambda>s. message s \<in> set ?ks \<and> has_bucket_stage s) (mset xs)"
    by (simp add: mset_bucket_steps_group_for sum_filter_by_key distinct_new_Set)
  also have "\<dots> = filter_mset has_bucket_stage (mset xs)"
    by (rule filter_mset_cong) (auto simp: set_new_Set)
  finally show ?thesis by simp
qed


subsection \<open>The assembled pipeline\<close>

lemma groups_of_messages:
  "g \<in> set (map_values (groups_of xs)) \<Longrightarrow>
     g = group_for xs (messageName g) \<and> messageName g \<in> message ` set xs"
  by (auto simp: map_values_def groups_of_def set_new_Set group_for_def)

lemma group_in_messages:
  "s \<in> set xs \<Longrightarrow> group_for xs (message s) \<in> set (map_values (groups_of xs))"
  by (auto simp: map_values_def groups_of_def set_new_Set image_iff)

lemma set_bucket_steps_group_for:
  "set (bucket_steps (group_for xs k)) = {s \<in> set xs. message s = k \<and> has_bucket_stage s}"
  by (auto simp: bucket_steps_def group_for_def has_bucket_stage_def)

lemma messageName_group_for: "messageName (group_for xs k) = k"
  by (simp add: group_for_def)

lemma set_bucketed_groups_of:
  "set (bucketed_steps (map_values (groups_of xs))) = {s \<in> set xs. has_bucket_stage s}"
  using mset_bucketed_groups_of [of xs, THEN arg_cong, of set_mset] by simp

lemma fetch_images_requests:
  "fetch_images client ids = (Inr imgs, q) \<Longrightarrow> list_ex is_image_request q \<longleftrightarrow> ids \<noteq> []"
  by (auto simp: fetch_images_def request_def returns_def split: if_splits)

lemma fetch_steps_requests:
  "fetch_steps_of_plugintypes client ids d = (r, q) \<Longrightarrow> \<not> list_ex is_image_request q"
  by (auto simp: fetch_steps_of_plugintypes_def request_def returns_def split: if_splits)

lemma no_image_request_among_plugintypes:
  "\<not> list_ex is_image_request (map Get_plugintype ids)"
  by (induction ids) auto

lemma getEntityPluginPipeline_shape:
  assumes "getEntityPluginPipeline client e mf d = (Inr r, qs)"
  shows "\<exists>rows assemblyMap allImages.
           get_steps_of_entity client e (message_clause mf) d = Inr rows \<and>
           steps r = map (format_step assemblyMap allImages) rows \<and>
           messages r = map_values (groups_of (steps r)) \<and>
           executionOrder r = map name (steps r)"
proof -
  from getEntityPluginPipeline_Inr [OF assms] obtain rows assemblyMap allImages where
    "get_steps_of_entity client e (message_clause mf) d = Inr rows"
    "r = \<lparr>entity = e,
          messages = map_values (groups_of (map (format_step assemblyMap allImages) rows)),
          steps = map (format_step assemblyMap allImages) rows,
          executionOrder = map name (map (format_step assemblyMap allImages) rows)\<rparr>"
    by blast
  then show ?thesis by auto
qed

lemma grouped_step:
  assumes "s \<in> set fs"
  shows "\<exists>g \<in> set (map_values (groups_of fs)).
           messageName g = message s \<and> (s \<in> set (bucket_steps g) \<longleftrightarrow> has_bucket_stage s)"
  using group_in_messages [OF assms] assms
  by (intro bexI [of _ "group_for fs (message s)"])
     (simp_all add: messageName_group_for set_bucket_steps_group_for)

lemma row_has_bucket_stage:
  "has_bucket_stage (format_step m i row) \<longleftrightarrow>
     step_row.stage row = 10 \<or> step_row.stage row = 20 \<or> step_row.stage row = 40"
  by (simp add: has_bucket_stage_def format_step_sel)

lemma filter_formatted:
  "filter has_bucket_stage (map (format_step m i) rows) =
     map (format_step m i)
       (filter (\<lambda>row. step_row.stage row = 10 \<or> step_row.stage row = 20 \<or>
                       step_row.stage row = 40) rows)"
  by (induction rows) (simp_all add: row_has_bucket_stage)

lemma formatted_names: "map name (map (format_step m i) rows) = map step_row.name rows"
  by (simp add: format_step_sel o_def)

text \<open>
  C1, as amended. For every pipeline returned by \<open>getEntityPluginPipeline\<close>,
  \<open>executionOrder\<close> has exactly one entry, the step's name, per fetched step, in fetched
  order, and the flat step list keeps the name, stage and rank of each fetched step. The
  stage buckets of all message groups together hold exactly the steps whose stage is
  10, 20 or 40; so when every fetched step has such a stage, \<open>executionOrder\<close> has exactly
  one entry per bucketed step. When the remote source returns the steps ordered by
  stage, then rank, an entry of a lower stage precedes every entry of a higher stage
  (10 before 20 before 40), and within a stage the ranks are non-decreasing.
\<close>

theorem executionOrder_follows_fetched_order:
  assumes run: "getEntityPluginPipeline client e mf d = (Inr r, qs)"
    and rows: "get_steps_of_entity client e (message_clause mf) d = Inr rows"
  shows "executionOrder r = map step_row.name rows \<and>
         map name (steps r) = map step_row.name rows \<and>
         map stage (steps r) = map step_row.stage rows \<and>
         map rank (steps r) = map step_row.rank rows \<and>
         mset (bucketed_steps (messages r)) = mset (filter has_bucket_stage (steps r)) \<and>
         mset (map name (bucketed_steps (messages r))) =
           mset (map step_row.name
                  (filter (\<lambda>row. step_row.stage row = 10 \<or> step_row.stage row = 20 \<or>
                                  step_row.stage row = 40) rows)) \<and>
         ((\<forall>row \<in> set rows. step_row.stage row = 10 \<or> step_row.stage row = 20 \<or>
                             step_row.stage row = 40) \<longrightarrow>
            mset (executionOrder r) = mset (map name (bucketed_steps (messages r))) \<and>
            length (executionOrder r) = length (bucketed_steps (messages r))) \<and>
         (ordered_by_stage_rank rows \<longrightarrow>
            (\<forall>i j. i < length (steps r) \<and> j < length (steps r) \<and>
                   stage (steps r ! i) < stage (steps r ! j) \<longrightarrow> i < j) \<and>
            (\<forall>i j. i < j \<and> j < length (steps r) \<and>
                   stage (steps r ! i) = stage (steps r ! j) \<longrightarrow>
                   rank (steps r ! i) \<le> rank (steps r ! j)))"
proof -
  from getEntityPluginPipeline_shape [OF run] rows obtain assemblyMap allImages where
    fs: "steps r = map (format_step assemblyMap allImages) rows"
    and ms: "messages r = map_values (groups_of (steps r))"
    and eo: "executionOrder r = map name (steps r)"
    by auto
  have names: "map name (steps r) = map step_row.name rows"
    and stages: "map stage (steps r) = map step_row.stage rows"
    and ranks: "map rank (steps r) = map step_row.rank rows"
    by (simp_all add: fs format_step_sel o_def)
  have len: "length (steps r) = length rows"
    by (simp add: fs)
  have st: "stage (steps r ! i) = step_row.stage (rows ! i)"
    and rk: "rank (steps r ! i) = step_row.rank (rows ! i)" if "i < length rows" for i
    using that by (simp_all add: fs format_step_sel)
  have bucketed: "mset (bucketed_steps (messages r)) = mset (filter has_bucket_stage (steps r))"
    by (simp only: ms mset_bucketed_groups_of)
  let ?in_bucket = "\<lambda>row. step_row.stage row = 10 \<or> step_row.stage row = 20 \<or>
      step_row.stage row = 40"
  from bucketed have "mset (map name (bucketed_steps (messages r))) =
      mset (map name (filter has_bucket_stage (steps r)))"
    by (metis mset_map)
  then have bucket_names: "mset (map name (bucketed_steps (messages r))) =
      mset (map step_row.name (filter ?in_bucket rows))"
    by (simp only: fs filter_formatted formatted_names)
  have all: "(\<forall>row \<in> set rows. step_row.stage row = 10 \<or> step_row.stage row = 20 \<or>
                             step_row.stage row = 40) \<longrightarrow>
            mset (executionOrder r) = mset (map name (bucketed_steps (messages r))) \<and>
            length (executionOrder r) = length (bucketed_steps (messages r))"
  proof
    assume that: "\<forall>row \<in> set rows. ?in_bucket row"
    show "mset (executionOrder r) = mset (map name (bucketed_steps (messages r))) \<and>
            length (executionOrder r) = length (bucketed_steps (messages r))"
    proof -
    from that have "filter ?in_bucket rows = rows"
      by simp
    with bucket_names have m: "mset (map name (bucketed_steps (messages r))) =
        mset (executionOrder r)"
      by (simp add: eo names)
    then have "length (map name (bucketed_steps (messages r))) = length (executionOrder r)"
      by (rule mset_eq_length)
    with m show ?thesis
      by simp
    qed
  qed
  have ordered: "ordered_by_stage_rank rows \<longrightarrow>
            (\<forall>i j. i < length (steps r) \<and> j < length (steps r) \<and>
                   stage (steps r ! i) < stage (steps r ! j) \<longrightarrow> i < j) \<and>
            (\<forall>i j. i < j \<and> j < length (steps r) \<and>
                   stage (steps r ! i) = stage (steps r ! j) \<longrightarrow>
                   rank (steps r ! i) \<le> rank (steps r ! j))"
  proof
    assume ord: "ordered_by_stage_rank rows"
    have le: "stage_rank_le (rows ! i) (rows ! j)" if "i < j" "j < length rows" for i j
      using ord that by (simp add: ordered_by_stage_rank_def sorted_wrt_iff_nth_less)
    have before: "i < j"
      if "i < length (steps r)" "j < length (steps r)"
        "stage (steps r ! i) < stage (steps r ! j)"
      for i j
    proof (rule ccontr)
      assume "\<not> i < j"
      then consider "j = i" | "j < i" by linarith
      then show False
      proof cases
        case 1
        with that show False by simp
      next
        case 2
        from le [OF 2] that have "stage_rank_le (rows ! j) (rows ! i)"
          by (simp add: len)
        with that show False
          by (simp add: stage_rank_le_def st len)
      qed
    qed
    have within: "rank (steps r ! i) \<le> rank (steps r ! j)"
      if "i < j" "j < length (steps r)" "stage (steps r ! i) = stage (steps r ! j)" for i j
      using le [of i j] that by (simp add: stage_rank_le_def st rk len)
    from before within
    show "(\<forall>i j. i < length (steps r) \<and> j < length (steps r) \<and>
                   stage (steps r ! i) < stage (steps r ! j) \<longrightarrow> i < j) \<and>
            (\<forall>i j. i < j \<and> j < length (steps r) \<and>
                   stage (steps r ! i) = stage (steps r ! j) \<longrightarrow>
                   rank (steps r ! i) \<le> rank (steps r ! j))"
      by blast
  qed
  from eo names have entries: "executionOrder r = map step_row.name rows"
    by simp
  show ?thesis
    by (intro conjI) (fact entries names stages ranks bucketed bucket_names all ordered)+
qed

theorem executionOrder_follows_fetched_order_witness:
  "getEntityPluginPipeline (sample_client account_steps [] []) ''account'' Undefined False =
     (Inr account_pipeline,
      [Get_steps_of_entity ''account'' None False, Get_plugintype ''type-1'',
       Get_stepimages [''step-1'', ''step-2'', ''step-3'']]) \<and>
   ordered_by_stage_rank account_steps \<and>
   executionOrder account_pipeline = map step_row.name account_steps \<and>
   length (executionOrder account_pipeline) =
     length (bucketed_steps (messages account_pipeline))"
proof -
  have run: "getEntityPluginPipeline (sample_client account_steps [] []) ''account'' Undefined
      False =
     (Inr account_pipeline,
      [Get_steps_of_entity ''account'' None False, Get_plugintype ''type-1'',
       Get_stepimages [''step-1'', ''step-2'', ''step-3'']])"
    by code_simp
  have rows: "get_steps_of_entity (sample_client account_steps [] []) ''account''
      (message_clause Undefined) False = Inr account_steps"
    by (simp add: sample_client_def)
  have ord: "ordered_by_stage_rank account_steps"
    by code_simp
  have all: "\<forall>row \<in> set account_steps. step_row.stage row = 10 \<or> step_row.stage row = 20 \<or>
      step_row.stage row = 40"
    by code_simp
  from executionOrder_follows_fetched_order [OF run rows] all
  have "executionOrder account_pipeline = map step_row.name account_steps \<and>
      length (executionOrder account_pipeline) =
        length (bucketed_steps (messages account_pipeline))"
    by blast
  with run ord show ?thesis
    by blast
qed

text \<open>
  C1 as stated fails for a step on a stage other than 10, 20 and 40: the step of this
  entity is on stage 30, the steps arrive ordered, \<open>executionOrder\<close> has one entry and the
  stage buckets hold no step.
\<close>

theorem executionOrder_stage_30_counterexample:
  "getEntityPluginPipeline (sample_client main_operation_steps [] []) ''account'' Undefined
     False =
     (Inr main_operation_pipeline,
      [Get_steps_of_entity ''account'' None False, Get_plugintype ''type-1'',
       Get_stepimages [''step-1'']]) \<and>
   ordered_by_stage_rank main_operation_steps \<and>
   executionOrder main_operation_pipeline = [''OnMain''] \<and>
   bucketed_steps (messages main_operation_pipeline) = []"
  by code_simp

text \<open>
  C7, as amended. In \<open>getEntityPluginPipeline\<close>, a step whose message name did not
  resolve does not make the assembly fail: if the remote reads succeed, the operation
  returns. The step is in \<open>executionOrder\<close>, and it is placed in the message group whose
  \<open>messageName\<close> is the unresolved value (\<open>undefined\<close> or \<open>null\<close>), in a stage bucket of that
  group exactly when its stage is 10, 20 or 40.
\<close>

theorem unresolved_message_step_is_grouped:
  assumes rows: "get_steps_of_entity client e (message_clause mf) d = Inr rows"
    and types: "\<forall>t. Val t \<in> set (map plugintypeid_value rows) \<longrightarrow>
                  (\<exists>p. get_plugintype client t = Inr p)"
    and imgs: "\<exists>imgs. get_stepimages client
                        (map step_row.sdkmessageprocessingstepid rows) = Inr imgs"
    and row: "row \<in> set rows"
    and unresolved: "message_name (sdkmessageid row) = Undefined \<or>
                     message_name (sdkmessageid row) = Null"
  shows "\<exists>r qs. getEntityPluginPipeline client e mf d = (Inr r, qs) \<and>
           (\<exists>s \<in> set (steps r).
              name s = step_row.name row \<and> stage s = step_row.stage row \<and>
              message s = message_name (sdkmessageid row) \<and>
              name s \<in> set (executionOrder r) \<and>
              (\<exists>g \<in> set (messages r).
                 messageName g = message_name (sdkmessageid row) \<and>
                 (s \<in> set (bucket_steps g) \<longleftrightarrow> has_bucket_stage s)))"
proof -
  from getEntityPluginPipeline_total [OF rows types] imgs obtain r qs where
    run: "getEntityPluginPipeline client e mf d = (Inr r, qs)"
    by blast
  from getEntityPluginPipeline_shape [OF run] rows obtain assemblyMap allImages where
    fs: "steps r = map (format_step assemblyMap allImages) rows"
    and ms: "messages r = map_values (groups_of (steps r))"
    and eo: "executionOrder r = map name (steps r)"
    by auto
  define s where "s = format_step assemblyMap allImages row"
  from row have member: "s \<in> set (steps r)"
    by (simp add: fs s_def)
  have sel: "name s = step_row.name row" "stage s = step_row.stage row"
    "message s = message_name (sdkmessageid row)"
    by (simp_all add: s_def format_step_sel)
  from member have listed: "name s \<in> set (executionOrder r)"
    by (simp add: eo)
  from grouped_step [OF member] obtain g where
    "g \<in> set (messages r)" "messageName g = message s"
    "s \<in> set (bucket_steps g) \<longleftrightarrow> has_bucket_stage s"
    by (auto simp: ms)
  with run member sel listed show ?thesis
    by (metis (no_types, lifting))
qed

theorem unresolved_message_step_is_grouped_witness:
  "\<exists>r qs. getEntityPluginPipeline (sample_client unresolved_message_steps [] []) ''account''
            Undefined False = (Inr r, qs) \<and>
     (\<exists>s \<in> set (steps r).
        name s = ''OnAny'' \<and> stage s = 20 \<and> message s = Undefined \<and>
        name s \<in> set (executionOrder r) \<and>
        (\<exists>g \<in> set (messages r).
           messageName g = Undefined \<and> (s \<in> set (bucket_steps g) \<longleftrightarrow> has_bucket_stage s)))"
proof -
  let ?row = "(sample_step ''step-1'' ''OnAny'' ''Create'' 20 1)\<lparr>sdkmessageid := Null\<rparr>"
  have rows: "get_steps_of_entity (sample_client unresolved_message_steps [] []) ''account''
      (message_clause Undefined) False = Inr unresolved_message_steps"
    by (simp add: sample_client_def)
  have types: "\<forall>t. Val t \<in> set (map plugintypeid_value unresolved_message_steps) \<longrightarrow>
      (\<exists>p. get_plugintype (sample_client unresolved_message_steps [] []) t = Inr p)"
    by (simp add: sample_client_def)
  have imgs: "\<exists>imgs. get_stepimages (sample_client unresolved_message_steps [] [])
      (map step_row.sdkmessageprocessingstepid unresolved_message_steps) = Inr imgs"
    by (simp add: sample_client_def)
  have row: "?row \<in> set unresolved_message_steps"
    by (simp add: unresolved_message_steps_def)
  have unresolved: "message_name (sdkmessageid ?row) = Undefined \<or>
      message_name (sdkmessageid ?row) = Null"
    by (simp add: message_name_def)
  have sel: "step_row.name ?row = ''OnAny''" "step_row.stage ?row = 20"
    "message_name (sdkmessageid ?row) = Undefined"
    by (simp_all add: sample_step_def message_name_def)
  from unresolved_message_step_is_grouped [OF rows types imgs row unresolved]
  show ?thesis
    unfolding sel .
qed

text \<open>
  C7 as stated fails: the step of this entity has no resolved message, and it sits in
  the \<open>preOperation\<close> bucket of a message group, the one whose \<open>messageName\<close> is
  \<open>undefined\<close>.
\<close>

theorem unresolved_message_step_counterexample:
  "getEntityPluginPipeline (sample_client unresolved_message_steps [] []) ''account'' Undefined
     False =
     (Inr unresolved_message_pipeline,
      [Get_steps_of_entity ''account'' None False, Get_plugintype ''type-1'',
       Get_stepimages [''step-1'']]) \<and>
   map message (steps unresolved_message_pipeline) = [Undefined] \<and>
   map messageName (messages unresolved_message_pipeline) = [Undefined] \<and>
   map bucket_steps (messages unresolved_message_pipeline) =
     [steps unresolved_message_pipeline]"
  by code_simp

text \<open>
  C9. Every step fetched by \<open>getEntityPluginPipeline\<close> is formatted into the flat step
  list at its position, with its name, stage and message, and its name is the entry of
  \<open>executionOrder\<close> at that position. A step whose stage is neither 10 nor 20 is labelled
  \<open>PostOperation\<close>, whatever the stage. The step has a message group of its message name;
  it is in a stage bucket of that group exactly when its stage is 10, 20 or 40, and a
  step of another stage is in no bucket of any group. The three buckets of a group hold
  the steps of its message on stage 10, 20 and 40.
\<close>

theorem stage_labels_and_buckets:
  assumes run: "getEntityPluginPipeline client e mf d = (Inr r, qs)"
    and rows: "get_steps_of_entity client e (message_clause mf) d = Inr rows"
  shows "length (steps r) = length rows \<and> length (executionOrder r) = length rows \<and>
         (\<forall>i. i < length rows \<longrightarrow>
            name (steps r ! i) = step_row.name (rows ! i) \<and>
            stage (steps r ! i) = step_row.stage (rows ! i) \<and>
            message (steps r ! i) = message_name (sdkmessageid (rows ! i)) \<and>
            stageName (steps r ! i) =
              (if step_row.stage (rows ! i) = 10 then ''PreValidation''
               else if step_row.stage (rows ! i) = 20 then ''PreOperation''
               else ''PostOperation'') \<and>
            executionOrder r ! i = step_row.name (rows ! i) \<and>
            (\<exists>g \<in> set (messages r).
               messageName g = message_name (sdkmessageid (rows ! i)) \<and>
               (steps r ! i \<in> set (bucket_steps g) \<longleftrightarrow>
                  step_row.stage (rows ! i) = 10 \<or> step_row.stage (rows ! i) = 20 \<or>
                  step_row.stage (rows ! i) = 40)) \<and>
            (step_row.stage (rows ! i) \<noteq> 10 \<and> step_row.stage (rows ! i) \<noteq> 20 \<and>
             step_row.stage (rows ! i) \<noteq> 40 \<longrightarrow>
               steps r ! i \<notin> set (bucketed_steps (messages r)))) \<and>
         (\<forall>g \<in> set (messages r).
            preValidation (stages g) =
              filter (\<lambda>s. message s = messageName g \<and> stage s = 10) (steps r) \<and>
            preOperation (stages g) =
              filter (\<lambda>s. message s = messageName g \<and> stage s = 20) (steps r) \<and>
            postOperation (stages g) =
              filter (\<lambda>s. message s = messageName g \<and> stage s = 40) (steps r))"
proof -
  from getEntityPluginPipeline_shape [OF run] rows obtain assemblyMap allImages where
    fs: "steps r = map (format_step assemblyMap allImages) rows"
    and ms: "messages r = map_values (groups_of (steps r))"
    and eo: "executionOrder r = map name (steps r)"
    by auto
  have len: "length (steps r) = length rows" "length (executionOrder r) = length rows"
    by (simp_all add: eo fs)
  have step: "name (steps r ! i) = step_row.name (rows ! i) \<and>
            stage (steps r ! i) = step_row.stage (rows ! i) \<and>
            message (steps r ! i) = message_name (sdkmessageid (rows ! i)) \<and>
            stageName (steps r ! i) =
              (if step_row.stage (rows ! i) = 10 then ''PreValidation''
               else if step_row.stage (rows ! i) = 20 then ''PreOperation''
               else ''PostOperation'') \<and>
            executionOrder r ! i = step_row.name (rows ! i) \<and>
            (\<exists>g \<in> set (messages r).
               messageName g = message_name (sdkmessageid (rows ! i)) \<and>
               (steps r ! i \<in> set (bucket_steps g) \<longleftrightarrow>
                  step_row.stage (rows ! i) = 10 \<or> step_row.stage (rows ! i) = 20 \<or>
                  step_row.stage (rows ! i) = 40)) \<and>
            (step_row.stage (rows ! i) \<noteq> 10 \<and> step_row.stage (rows ! i) \<noteq> 20 \<and>
             step_row.stage (rows ! i) \<noteq> 40 \<longrightarrow>
               steps r ! i \<notin> set (bucketed_steps (messages r)))"
    if i: "i < length rows" for i
  proof -
    let ?s = "steps r ! i"
    from i have s: "?s = format_step assemblyMap allImages (rows ! i)"
      by (simp add: fs)
    from i have member: "?s \<in> set (steps r)"
      by (simp add: len)
    have nm: "name ?s = step_row.name (rows ! i)"
      and stg: "stage ?s = step_row.stage (rows ! i)"
      and msg: "message ?s = message_name (sdkmessageid (rows ! i))"
      and lbl: "stageName ?s =
              (if step_row.stage (rows ! i) = 10 then ''PreValidation''
               else if step_row.stage (rows ! i) = 20 then ''PreOperation''
               else ''PostOperation'')"
      by (simp_all add: s format_step_sel)
    have bucket: "has_bucket_stage ?s \<longleftrightarrow>
        step_row.stage (rows ! i) = 10 \<or> step_row.stage (rows ! i) = 20 \<or>
        step_row.stage (rows ! i) = 40"
      by (simp add: s row_has_bucket_stage)
    from i have entry: "executionOrder r ! i = step_row.name (rows ! i)"
      by (simp add: eo len nm)
    from grouped_step [OF member] obtain g where
      g: "g \<in> set (messages r)" "messageName g = message ?s"
      "?s \<in> set (bucket_steps g) \<longleftrightarrow> has_bucket_stage ?s"
      by (auto simp: ms)
    then have grp: "\<exists>g \<in> set (messages r).
               messageName g = message_name (sdkmessageid (rows ! i)) \<and>
               (?s \<in> set (bucket_steps g) \<longleftrightarrow>
                  step_row.stage (rows ! i) = 10 \<or> step_row.stage (rows ! i) = 20 \<or>
                  step_row.stage (rows ! i) = 40)"
      unfolding msg bucket by (intro bexI [of _ g] conjI)
    have "\<not> has_bucket_stage ?s \<longrightarrow> ?s \<notin> set (bucketed_steps (messages r))"
      by (simp add: ms set_bucketed_groups_of)
    then have out: "step_row.stage (rows ! i) \<noteq> 10 \<and> step_row.stage (rows ! i) \<noteq> 20 \<and>
             step_row.stage (rows ! i) \<noteq> 40 \<longrightarrow>
               ?s \<notin> set (bucketed_steps (messages r))"
      unfolding bucket by simp
    show ?thesis
      by (intro conjI) (fact nm stg msg lbl entry grp out)+
  qed
  have buckets: "preValidation (stages g) =
              filter (\<lambda>s. message s = messageName g \<and> stage s = 10) (steps r) \<and>
            preOperation (stages g) =
              filter (\<lambda>s. message s = messageName g \<and> stage s = 20) (steps r) \<and>
            postOperation (stages g) =
              filter (\<lambda>s. message s = messageName g \<and> stage s = 40) (steps r)"
    if "g \<in> set (messages r)" for g
  proof -
    from that have "g \<in> set (map_values (groups_of (steps r)))"
      by (simp add: ms [symmetric])
    from groups_of_messages [OF this] have "g = group_for (steps r) (messageName g)" ..
    then have "preValidation (stages g) =
        preValidation (stages (group_for (steps r) (messageName g)))"
      "preOperation (stages g) = preOperation (stages (group_for (steps r) (messageName g)))"
      "postOperation (stages g) = postOperation (stages (group_for (steps r) (messageName g)))"
      by simp_all
    then show ?thesis by (simp add: group_for_def)
  qed
  show ?thesis
  proof (intro conjI)
    show "length (steps r) = length rows" "length (executionOrder r) = length rows"
      by (fact len)+
    show "\<forall>i. i < length rows \<longrightarrow>
            name (steps r ! i) = step_row.name (rows ! i) \<and>
            stage (steps r ! i) = step_row.stage (rows ! i) \<and>
            message (steps r ! i) = message_name (sdkmessageid (rows ! i)) \<and>
            stageName (steps r ! i) =
              (if step_row.stage (rows ! i) = 10 then ''PreValidation''
               else if step_row.stage (rows ! i) = 20 then ''PreOperation''
               else ''PostOperation'') \<and>
            executionOrder r ! i = step_row.name (rows ! i) \<and>
            (\<exists>g \<in> set (messages r).
               messageName g = message_name (sdkmessageid (rows ! i)) \<and>
               (steps r ! i \<in> set (bucket_steps g) \<longleftrightarrow>
                  step_row.stage (rows ! i) = 10 \<or> step_row.stage (rows ! i) = 20 \<or>
                  step_row.stage (rows ! i) = 40)) \<and>
            (step_row.stage (rows ! i) \<noteq> 10 \<and> step_row.stage (rows ! i) \<noteq> 20 \<and>
             step_row.stage (rows ! i) \<noteq> 40 \<longrightarrow>
               steps r ! i \<notin> set (bucketed_steps (messages r)))"
      by (intro allI impI) (rule step)
    show "\<forall>g \<in> set (messages r).
            preValidation (stages g) =
              filter (\<lambda>s. message s = messageName g \<and> stage s = 10) (steps r) \<and>
            preOperation (stages g) =
              filter (\<lambda>s. message s = messageName g \<and> stage s = 20) (steps r) \<and>
            postOperation (stages g) =
              filter (\<lambda>s. message s = messageName g \<and> stage s = 40) (steps r)"
      by (intro ballI) (rule buckets)
  qed
qed

theorem stage_labels_and_buckets_witness:
  "getEntityPluginPipeline (sample_client main_operation_steps [] []) ''account'' Undefined
     False =
     (Inr main_operation_pipeline,
      [Get_steps_of_entity ''account'' None False, Get_plugintype ''type-1'',
       Get_stepimages [''step-1'']]) \<and>
   step_row.stage (main_operation_steps ! 0) = 30 \<and>
   stageName (steps main_operation_pipeline ! 0) = ''PostOperation'' \<and>
   executionOrder main_operation_pipeline ! 0 = step_row.name (main_operation_steps ! 0) \<and>
   steps main_operation_pipeline ! 0 \<notin> set (bucketed_steps (messages main_operation_pipeline))"
proof -
  have run: "getEntityPluginPipeline (sample_client main_operation_steps [] []) ''account''
      Undefined False =
     (Inr main_operation_pipeline,
      [Get_steps_of_entity ''account'' None False, Get_plugintype ''type-1'',
       Get_stepimages [''step-1'']])"
    by code_simp
  have rows: "get_steps_of_entity (sample_client main_operation_steps [] []) ''account''
      (message_clause Undefined) False = Inr main_operation_steps"
    by (simp add: sample_client_def)
  have i: "0 < length main_operation_steps"
    by (simp add: main_operation_steps_def)
  have stage30: "step_row.stage (main_operation_steps ! 0) = 30"
    by (simp add: main_operation_steps_def sample_step_def)
  from stage_labels_and_buckets
         [OF run rows, THEN conjunct2, THEN conjunct2, THEN conjunct1, THEN spec, THEN mp, OF i]
       stage30
  have "stageName (steps main_operation_pipeline ! 0) = ''PostOperation'' \<and>
      executionOrder main_operation_pipeline ! 0 = step_row.name (main_operation_steps ! 0) \<and>
      steps main_operation_pipeline ! 0
        \<notin> set (bucketed_steps (messages main_operation_pipeline))"
    by simp
  with run stage30 show ?thesis
    by blast
qed

section \<open>Properties of getPluginTraceLogs\<close>

lemma parsed_parse_log: "parsed (parse_log log) = parse_exception (exceptiondetails log)"
  by (simp add: parse_log_def tracelog_row.defs parsed_log.defs)

lemma split_first: "\<exists>rest. split c s = takeWhile (\<lambda>x. x \<noteq> c) s # rest"
  by (induction s) (auto split: list.splits)

lemma indexOf_eq:
  "indexOf l c = (if c \<in> set l then int (length (takeWhile (\<lambda>x. x \<noteq> c) l)) else -1)"
  by (induction l) (auto simp: Let_def)

lemma takeWhile_within_prefix:
  "c \<in> set (takeWhile P xs) \<Longrightarrow>
     takeWhile (\<lambda>x. x \<noteq> c) xs = takeWhile (\<lambda>x. x \<noteq> c) (takeWhile P xs)"
  by (induction xs) (auto split: if_splits)

lemma dropWhile_nonempty: "c \<in> set xs \<Longrightarrow> dropWhile (\<lambda>x. x \<noteq> c) xs \<noteq> []"
  by (induction xs) auto

lemma takeWhile_all: "c \<notin> set xs \<Longrightarrow> dropWhile (\<lambda>x. x \<noteq> c) xs = []"
  by (induction xs) auto

lemma takeWhile_empty_iff_hd:
  "xs \<noteq> [] \<Longrightarrow> takeWhile (\<lambda>x. x \<noteq> c) xs = [] \<longleftrightarrow> hd xs = c"
  by (cases xs) auto

lemma extractExceptionMessage_eq:
  "extractExceptionMessage text =
     (if CHR '':'' \<in> set (first_line text) \<and> hd (first_line text) \<noteq> CHR '':''
      then spec_exceptionMessage text else None)"
proof -
  obtain rest where sp: "split (CHR 0x0A) text = first_line text # rest"
    using split_first [of "CHR 0x0A" "text"] by (auto simp: first_line_def)
  let ?l = "first_line text"
  show ?thesis
  proof (cases "CHR '':'' \<in> set ?l")
    case False
    then show ?thesis
      by (simp add: extractExceptionMessage_def sp indexOf_eq)
  next
    case True
    then have ne: "?l \<noteq> []" by auto
    have dr: "drop (Suc (length (takeWhile (\<lambda>x. x \<noteq> CHR '':'') ?l))) ?l =
        tl (dropWhile (\<lambda>x. x \<noteq> CHR '':'') ?l)"
      by (simp add: dropWhile_eq_drop drop_Suc tl_drop)
    have nat_eq: "nat (int n + 1) = Suc n" for n
      by simp
    show ?thesis
      using True takeWhile_empty_iff_hd [OF ne, of "CHR '':''"]
      by (simp add: extractExceptionMessage_def sp indexOf_eq substring_def nat_eq dr
            spec_exceptionMessage_def Let_def)
  qed
qed

lemma extractExceptionType_first_line:
  assumes "CHR '':'' \<in> set (first_line text)"
  shows "extractExceptionType text =
           (if hd (first_line text) \<noteq> CHR '':'' then spec_exceptionType text else None)"
proof -
  let ?l = "first_line text"
  from assms have ne: "?l \<noteq> []" by auto
  from assms have "CHR '':'' \<in> set text"
    unfolding first_line_def by (rule set_takeWhileD [THEN conjunct1])
  then have rest: "dropWhile (\<lambda>c. c \<noteq> CHR '':'') text \<noteq> []"
    by (rule dropWhile_nonempty)
  have pre: "takeWhile (\<lambda>c. c \<noteq> CHR '':'') text = takeWhile (\<lambda>c. c \<noteq> CHR '':'') ?l"
    using assms unfolding first_line_def by (rule takeWhile_within_prefix)
  show ?thesis
    using assms rest takeWhile_empty_iff_hd [OF ne, of "CHR '':''"]
    by (simp add: extractExceptionType_def match_before_colon_def Let_def pre
          spec_exceptionType_def)
qed

lemma extractExceptionType_no_colon:
  "CHR '':'' \<notin> set text \<Longrightarrow> extractExceptionType text = None"
  by (simp add: extractExceptionType_def match_before_colon_def Let_def takeWhile_all)


lemma parse_exception_text:
  "text \<noteq> [] \<Longrightarrow>
     parse_exception (Val text) =
       \<lparr>hasException = True, exceptionType = extractExceptionType text,
        exceptionMessage = extractExceptionMessage text, stackTrace = Val text\<rparr>"
  by (simp add: parse_exception_def)

lemma getPluginTraceLogs_outcome:
  "getPluginTraceLogs client clock options =
     (case trace_filters clock options of
        Inl e \<Rightarrow> (Inl e, [])
      | Inr filters \<Rightarrow>
          (case get_plugintracelogs client filters (with_default 50 (opt_maxRecords options)) of
             Inl e \<Rightarrow> (Inl e, [Get_plugintracelogs filters (with_default 50 (opt_maxRecords options))])
           | Inr rows \<Rightarrow>
               (Inr \<lparr>totalCount = length rows, logs = map parse_log rows\<rparr>,
                [Get_plugintracelogs filters (with_default 50 (opt_maxRecords options))])))"
  by (simp add: getPluginTraceLogs_def Let_def await_def request_def returns_def throws_def
        split: sum.splits)

lemma trace_filters_RangeError:
  "trace_filters clock options = Inl e \<longleftrightarrow>
     e = RangeError \<and> setHours_back clock (with_default 24 (opt_hoursBack options)) = None"
  by (auto simp: trace_filters_def Let_def toISOString_def split: option.splits)


text \<open>
  C6, as amended. \<open>getPluginTraceLogs\<close> raises only when the time bound is an invalid
  date (a \<open>RangeError\<close>, before any request) or when the remote read fails; otherwise it
  returns one parsed log per record, whatever the exception texts are. For a record
  with non-empty exception text: if the first line has a colon that is not its first
  character, \<open>exceptionType\<close> is the part of the first line before its first colon and
  \<open>exceptionMessage\<close> the part of the first line after it, both trimmed; if the first
  line starts with a colon, both are null; if the first line has no colon,
  \<open>exceptionMessage\<close> is null; if the whole text has no colon, \<open>exceptionType\<close> is null.
\<close>

theorem trace_log_exception_parse:
  "(setHours_back clock (with_default 24 (opt_hoursBack options)) = None \<longrightarrow>
      getPluginTraceLogs client clock options = (Inl RangeError, [])) \<and>
   (\<forall>filters e.
      trace_filters clock options = Inr filters \<and>
      get_plugintracelogs client filters (with_default 50 (opt_maxRecords options)) = Inl e \<longrightarrow>
      getPluginTraceLogs client clock options =
        (Inl e, [Get_plugintracelogs filters (with_default 50 (opt_maxRecords options))])) \<and>
   (\<forall>filters rows.
      trace_filters clock options = Inr filters \<and>
      get_plugintracelogs client filters (with_default 50 (opt_maxRecords options)) = Inr rows \<longrightarrow>
      getPluginTraceLogs client clock options =
        (Inr \<lparr>totalCount = length rows, logs = map parse_log rows\<rparr>,
         [Get_plugintracelogs filters (with_default 50 (opt_maxRecords options))]) \<and>
      (\<forall>log \<in> set rows. \<forall>text.
         exceptiondetails log = Val text \<and> text \<noteq> [] \<longrightarrow>
         hasException (parsed (parse_log log)) \<and>
         (CHR '':'' \<in> set (first_line text) \<and> hd (first_line text) \<noteq> CHR '':'' \<longrightarrow>
            exceptionType (parsed (parse_log log)) =
              Some (trim (takeWhile (\<lambda>c. c \<noteq> CHR '':'') (first_line text))) \<and>
            exceptionMessage (parsed (parse_log log)) =
              Some (trim (tl (dropWhile (\<lambda>c. c \<noteq> CHR '':'') (first_line text))))) \<and>
         (CHR '':'' \<in> set (first_line text) \<and> hd (first_line text) = CHR '':'' \<longrightarrow>
            exceptionType (parsed (parse_log log)) = None \<and>
            exceptionMessage (parsed (parse_log log)) = None) \<and>
         (CHR '':'' \<notin> set (first_line text) \<longrightarrow>
            exceptionMessage (parsed (parse_log log)) = None) \<and>
         (CHR '':'' \<notin> set text \<longrightarrow>
            exceptionType (parsed (parse_log log)) = None)))"
proof (intro conjI allI impI)
  assume "setHours_back clock (with_default 24 (opt_hoursBack options)) = None"
  then have "trace_filters clock options = Inl RangeError"
    by (simp add: trace_filters_RangeError)
  then show "getPluginTraceLogs client clock options = (Inl RangeError, [])"
    by (simp add: getPluginTraceLogs_outcome)
next
  fix filters e
  assume "trace_filters clock options = Inr filters \<and>
      get_plugintracelogs client filters (with_default 50 (opt_maxRecords options)) = Inl e"
  then show "getPluginTraceLogs client clock options =
        (Inl e, [Get_plugintracelogs filters (with_default 50 (opt_maxRecords options))])"
    by (simp add: getPluginTraceLogs_outcome)
next
  fix filters rows
  assume "trace_filters clock options = Inr filters \<and>
      get_plugintracelogs client filters (with_default 50 (opt_maxRecords options)) = Inr rows"
  then show "getPluginTraceLogs client clock options =
        (Inr \<lparr>totalCount = length rows, logs = map parse_log rows\<rparr>,
         [Get_plugintracelogs filters (with_default 50 (opt_maxRecords options))])"
    by (simp add: getPluginTraceLogs_outcome)
next
  fix filters rows
  have parse: "hasException (parsed (parse_log log)) \<and>
      exceptionType (parsed (parse_log log)) = extractExceptionType body \<and>
      exceptionMessage (parsed (parse_log log)) = extractExceptionMessage body"
    if "exceptiondetails log = Val body" "body \<noteq> []" for log body
    using that by (simp add: parsed_parse_log parse_exception_text)
  show "\<forall>log \<in> set rows. \<forall>text.
         exceptiondetails log = Val text \<and> text \<noteq> [] \<longrightarrow>
         hasException (parsed (parse_log log)) \<and>
         (CHR '':'' \<in> set (first_line text) \<and> hd (first_line text) \<noteq> CHR '':'' \<longrightarrow>
            exceptionType (parsed (parse_log log)) =
              Some (trim (takeWhile (\<lambda>c. c \<noteq> CHR '':'') (first_line text))) \<and>
            exceptionMessage (parsed (parse_log log)) =
              Some (trim (tl (dropWhile (\<lambda>c. c \<noteq> CHR '':'') (first_line text))))) \<and>
         (CHR '':'' \<in> set (first_line text) \<and> hd (first_line text) = CHR '':'' \<longrightarrow>
            exceptionType (parsed (parse_log log)) = None \<and>
            exceptionMessage (parsed (parse_log log)) = None) \<and>
         (CHR '':'' \<notin> set (first_line text) \<longrightarrow>
            exceptionMessage (parsed (parse_log log)) = None) \<and>
         (CHR '':'' \<notin> set text \<longrightarrow>
            exceptionType (parsed (parse_log log)) = None)"
    using parse
    by (auto simp: extractExceptionMessage_eq extractExceptionType_first_line
          extractExceptionType_no_colon spec_exceptionType_def spec_exceptionMessage_def
          Let_def)
qed

theorem trace_log_exception_parse_witness:
  "getPluginTraceLogs
     (sample_client [] []
        [sample_trace ''System.NullReferenceException: Object reference not set\<newline>at ...''])
     sample_clock sample_options =
     (Inr \<lparr>totalCount = 1,
           logs = [parse_log (sample_trace
             ''System.NullReferenceException: Object reference not set\<newline>at ...'')]\<rparr>,
      [Get_plugintracelogs
         [Createdon_gt 1793601300000, Primaryentity_eq ''account'', Exceptiondetails_ne_null]
         50]) \<and>
   exceptionType (parsed (parse_log (sample_trace
     ''System.NullReferenceException: Object reference not set\<newline>at ...''))) =
     Some ''System.NullReferenceException'' \<and>
   exceptionMessage (parsed (parse_log (sample_trace
     ''System.NullReferenceException: Object reference not set\<newline>at ...''))) =
     Some ''Object reference not set'' \<and>
   getPluginTraceLogs
     (sample_client [] []
        [sample_trace ''System.NullReferenceException: Object reference not set\<newline>at ...''])
     sample_clock (sample_options\<lparr>opt_hoursBack := Some 4294967296\<rparr>) = (Inl RangeError, [])"
proof -
  let ?text = "''System.NullReferenceException: Object reference not set\<newline>at ...''"
  let ?rows = "[sample_trace ?text]"
  let ?filters = "[Createdon_gt 1793601300000, Primaryentity_eq ''account'',
      Exceptiondetails_ne_null]"
  have filters: "trace_filters sample_clock sample_options = Inr ?filters"
    by code_simp
  have limit: "with_default 50 (opt_maxRecords sample_options) = 50"
    by code_simp
  have fetched: "get_plugintracelogs (sample_client [] [] ?rows) ?filters
      (with_default 50 (opt_maxRecords sample_options)) = Inr ?rows"
    by (simp add: sample_client_def)
  have details: "exceptiondetails (sample_trace ?text) = Val ?text" "?text \<noteq> []"
    by (simp_all add: sample_trace_def)
  have line: "CHR '':'' \<in> set (first_line ?text) \<and> hd (first_line ?text) \<noteq> CHR '':''"
    by code_simp
  have before: "trim (takeWhile (\<lambda>c. c \<noteq> CHR '':'') (first_line ?text)) =
      ''System.NullReferenceException''"
    by code_simp
  have after: "trim (tl (dropWhile (\<lambda>c. c \<noteq> CHR '':'') (first_line ?text))) =
      ''Object reference not set''"
    by code_simp
  have invalid: "setHours_back sample_clock
      (with_default 24 (opt_hoursBack (sample_options\<lparr>opt_hoursBack := Some 4294967296\<rparr>))) =
      None"
    by code_simp
  from trace_log_exception_parse
         [of sample_clock sample_options "sample_client [] [] ?rows",
          THEN conjunct2, THEN conjunct2, THEN spec, THEN spec, THEN mp, OF conjI,
          OF filters fetched]
       details line
  have "getPluginTraceLogs (sample_client [] [] ?rows) sample_clock sample_options =
      (Inr \<lparr>totalCount = length ?rows, logs = map parse_log ?rows\<rparr>,
       [Get_plugintracelogs ?filters (with_default 50 (opt_maxRecords sample_options))]) \<and>
    exceptionType (parsed (parse_log (sample_trace ?text))) =
      Some (trim (takeWhile (\<lambda>c. c \<noteq> CHR '':'') (first_line ?text))) \<and>
    exceptionMessage (parsed (parse_log (sample_trace ?text))) =
      Some (trim (tl (dropWhile (\<lambda>c. c \<noteq> CHR '':'') (first_line ?text))))"
    by simp
  moreover
  from trace_log_exception_parse
         [of sample_clock "sample_options\<lparr>opt_hoursBack := Some 4294967296\<rparr>"
             "sample_client [] [] ?rows",
          THEN conjunct1, THEN mp, OF invalid]
  have "getPluginTraceLogs (sample_client [] [] ?rows) sample_clock
      (sample_options\<lparr>opt_hoursBack := Some 4294967296\<rparr>) = (Inl RangeError, [])" .
  ultimately show ?thesis
    by (simp add: limit before after)
qed

text \<open>
  C6 as stated fails for an exception text whose first line starts with a colon: the
  part before the colon, trimmed, is the empty string and the part after it is \<open>boom\<close>,
  but both parsed fields are null.
\<close>

theorem trace_log_leading_colon_counterexample:
  "getPluginTraceLogs (sample_client [] [] [sample_trace '':boom'']) sample_clock
     sample_options =
     (Inr \<lparr>totalCount = 1,
           logs =
             [\<lparr>tracelog_row.mode = 0, operationtype = 2, exceptiondetails = Val '':boom'',
               modeName = ''Synchronous'', operationTypeName = ''Update'',
               parsed =
                 \<lparr>hasException = True, exceptionType = None, exceptionMessage = None,
                  stackTrace = Val '':boom''\<rparr>\<rparr>]\<rparr>,
      [Get_plugintracelogs
         [Createdon_gt 1793601300000, Primaryentity_eq ''account'', Exceptiondetails_ne_null]
         50]) \<and>
   spec_exceptionType '':boom'' = Some [] \<and>
   spec_exceptionMessage '':boom'' = Some ''boom''"
  by code_simp

text \<open>
  The type is cut at the first colon of the whole text, not of the first line: a first
  line without a colon followed by a line with one yields a type that spans both lines,
  while the message, cut from the first line only, is null.
\<close>

lemma exception_type_spans_lines:
  "extractExceptionType ''Boom\<newline>  at X.Y: line 3'' = Some ''Boom\<newline>  at X.Y'' \<and>
   extractExceptionMessage ''Boom\<newline>  at X.Y: line 3'' = None \<and>
   spec_exceptionType ''Boom\<newline>  at X.Y: line 3'' = None"
  by code_simp

section \<open>Image binding on an empty step set\<close>

text \<open>
  C8. Both operations issue the image query exactly when there is a step: a successful
  run of \<open>getPluginAssemblyComplete\<close> or \<open>getEntityPluginPipeline\<close> has an image request
  among its requests if and only if its \<open>steps\<close> are not empty. When the assembly has no
  plugin type, or the step query returns no row, \<open>getPluginAssemblyComplete\<close> returns with
  empty \<open>steps\<close> and without an image request; when the entity's step query returns no
  row, \<open>getEntityPluginPipeline\<close> returns the empty pipeline after that single request.
\<close>

theorem no_steps_no_image_request:
  "(getPluginAssemblyComplete client a d = (Inr r, qs) \<longrightarrow>
      (list_ex is_image_request qs \<longleftrightarrow> assembly_complete.steps r \<noteq> [])) \<and>
   (get_pluginassemblies client a = Inr (Val (asm # others)) \<and>
    get_plugintypes client (pluginassembly_row.pluginassemblyid asm) = Inr pts \<and>
    (pts = [] \<or> get_steps_of_plugintypes client (map plugintypeid pts) d = Inr []) \<longrightarrow>
      (\<exists>r' qs'. getPluginAssemblyComplete client a d = (Inr r', qs') \<and>
                assembly_complete.steps r' = [] \<and> \<not> list_ex is_image_request qs')) \<and>
   (getEntityPluginPipeline client e mf d = (Inr p, ps) \<longrightarrow>
      (list_ex is_image_request ps \<longleftrightarrow> steps p \<noteq> [])) \<and>
   (get_steps_of_entity client e (message_clause mf) d = Inr [] \<longrightarrow>
      getEntityPluginPipeline client e mf d =
        (Inr \<lparr>entity = e, messages = [], steps = [], executionOrder = []\<rparr>,
         [Get_steps_of_entity e (message_clause mf) d]))"
proof (intro conjI impI)
  assume run: "getPluginAssemblyComplete client a d = (Inr r, qs)"
  from getPluginAssemblyComplete_Inr [OF run] obtain asm0 pts0 allSteps allImages q1 q2 where
    s: "fetch_steps_of_plugintypes client (map plugintypeid pts0) d = (Inr allSteps, q1)"
    and i: "fetch_images client (map step_row.sdkmessageprocessingstepid allSteps) =
             (Inr allImages, q2)"
    and q: "qs = [Get_pluginassemblies a,
                  Get_plugintypes (pluginassembly_row.pluginassemblyid asm0)] @ q1 @ q2"
    and r0: "r = \<lparr>assembly = asm0, pluginTypes = pts0,
                steps = map (attach_images allImages) allSteps,
                validation = validate allSteps (map (attach_images allImages) allSteps)\<rparr>"
    by blast
  from r0 have r: "assembly_complete.steps r = map (attach_images allImages) allSteps"
    by simp
  from fetch_steps_requests [OF s] fetch_images_requests [OF i]
  show "list_ex is_image_request qs \<longleftrightarrow> assembly_complete.steps r \<noteq> []"
    by (auto simp: q r list_ex_iff)
next
  assume h: "get_pluginassemblies client a = Inr (Val (asm # others)) \<and>
    get_plugintypes client (pluginassembly_row.pluginassemblyid asm) = Inr pts \<and>
    (pts = [] \<or> get_steps_of_plugintypes client (map plugintypeid pts) d = Inr [])"
  then have steps: "\<exists>q. fetch_steps_of_plugintypes client (map plugintypeid pts) d = (Inr [], q) \<and>
      \<not> list_ex is_image_request q"
    by (auto simp: fetch_steps_of_plugintypes_def request_def returns_def)
  then obtain q where q: "fetch_steps_of_plugintypes client (map plugintypeid pts) d = (Inr [], q)"
    and nq: "\<not> list_ex is_image_request q"
    by blast
  from h q nq
  show "\<exists>r' qs'. getPluginAssemblyComplete client a d = (Inr r', qs') \<and>
                assembly_complete.steps r' = [] \<and> \<not> list_ex is_image_request qs'"
    by (simp add: getPluginAssemblyComplete_def await_def request_def returns_def Let_def
          fetch_images_def list_ex_iff)
next
  assume run: "getEntityPluginPipeline client e mf d = (Inr p, ps)"
  from getEntityPluginPipeline_Inr [OF run] obtain rows assemblyMap allImages q2 where
    i: "fetch_images client (map step_row.sdkmessageprocessingstepid rows) = (Inr allImages, q2)"
    and q: "ps = Get_steps_of_entity e (message_clause mf) d #
                map Get_plugintype (new_Set (non_null_ids (map plugintypeid_value rows))) @ q2"
    and r0: "p = \<lparr>entity = e,
                messages = map_values (groups_of (map (format_step assemblyMap allImages) rows)),
                steps = map (format_step assemblyMap allImages) rows,
                executionOrder = map name (map (format_step assemblyMap allImages) rows)\<rparr>"
    by blast
  from r0 have r: "steps p = map (format_step assemblyMap allImages) rows"
    by simp
  from fetch_images_requests [OF i]
    no_image_request_among_plugintypes
      [of "new_Set (non_null_ids (map plugintypeid_value rows))"]
  show "list_ex is_image_request ps \<longleftrightarrow> steps p \<noteq> []"
    by (auto simp: q r list_ex_iff)
next
  assume "get_steps_of_entity client e (message_clause mf) d = Inr []"
  then show "getEntityPluginPipeline client e mf d =
        (Inr \<lparr>entity = e, messages = [], steps = [], executionOrder = []\<rparr>,
         [Get_steps_of_entity e (message_clause mf) d])"
    by (simp add: getEntityPluginPipeline_def await_def request_def returns_def Let_def
          fetch_images_def non_null_ids_def new_Set_def map_values_def)
qed

theorem no_steps_no_image_request_witness:
  "getPluginAssemblyComplete (sample_client [] [] []) ''Contoso.Plugins'' False =
     (Inr \<lparr>assembly = \<lparr>pluginassembly_row.pluginassemblyid = ''asm-1''\<rparr>,
           pluginTypes = [\<lparr>plugintypeid = ''type-1''\<rparr>],
           steps = [],
           validation =
             \<lparr>hasDisabledSteps = False, hasAsyncSteps = False, hasSyncSteps = False,
              stepsWithoutFilteringAttributes = [], stepsWithoutImages = [],
              potentialIssues = []\<rparr>\<rparr>,
      [Get_pluginassemblies ''Contoso.Plugins'', Get_plugintypes ''asm-1'',
       Get_steps_of_plugintypes [''type-1''] False]) \<and>
   getEntityPluginPipeline (sample_client [] [] []) ''account'' Undefined False =
     (Inr \<lparr>entity = ''account'', messages = [], steps = [], executionOrder = []\<rparr>,
      [Get_steps_of_entity ''account'' None False])"
proof -
  have run: "getPluginAssemblyComplete (sample_client [] [] []) ''Contoso.Plugins'' False =
     (Inr \<lparr>assembly = \<lparr>pluginassembly_row.pluginassemblyid = ''asm-1''\<rparr>,
           pluginTypes = [\<lparr>plugintypeid = ''type-1''\<rparr>],
           steps = [],
           validation =
             \<lparr>hasDisabledSteps = False, hasAsyncSteps = False, hasSyncSteps = False,
              stepsWithoutFilteringAttributes = [], stepsWithoutImages = [],
              potentialIssues = []\<rparr>\<rparr>,
      [Get_pluginassemblies ''Contoso.Plugins'', Get_plugintypes ''asm-1'',
       Get_steps_of_plugintypes [''type-1''] False])"
    by code_simp
  have rows: "get_steps_of_entity (sample_client [] [] []) ''account''
      (message_clause Undefined) False = Inr []"
    by (simp add: sample_client_def)
  have clause: "message_clause Undefined = None"
    by (simp add: message_clause_def)
  from no_steps_no_image_request
         [of "sample_client [] [] []" _ False _ _ _ _ _ "''account''" Undefined]
       rows
  have "getEntityPluginPipeline (sample_client [] [] []) ''account'' Undefined False =
     (Inr \<lparr>entity = ''account'', messages = [], steps = [], executionOrder = []\<rparr>,
      [Get_steps_of_entity ''account'' (message_clause Undefined) False])"
    by blast
  with run clause show ?thesis
    by simp
qed

end
